theory Spec2Isabelle
  imports Complex_Main
begin

section \<open>The atomic token-bucket primitive (src/core/lua-scripts.ts)\<close>

text \<open>
  A number of the script is a double. The script is modelled twice. First with the
  arithmetic of the reals (\<open>TOKEN_BUCKET_LUA_SCRIPT\<close>, below): this is what the script
  computes where none of its operations rounds, as on whole numbers and binary fractions
  of moderate size, and it serves for the concrete runs. Then with the operations of Lua
  as a parameter (\<open>TOKEN_BUCKET_LUA_SCRIPT_in\<close>, in the next subsection), so that what is
  proved for every such parameter holds of the doubles, whatever they round to; there
  \<open>x / 0\<close> is what the parameter makes of it, while in the first model it is \<open>0\<close>,
  which is neither the \<open>inf\<close> nor the \<open>nan\<close> of Lua.

  The reply is the table the script returns. The store turns the numbers of that table
  into integers on their way to the client; this conversion is no part of the script and
  is not modelled, and no statement below is about the numbers a client receives.

  A bucket is a Redis hash with the two fields the script reads with \<open>HMGET\<close> and
  writes with \<open>HMSET\<close>; a field that is missing (or not a number) reads as \<open>nil\<close>.
  The time to live that \<open>EXPIRE\<close> puts on the key is recorded with the hash. The
  store deleting a key whose time to live has run out is the store's own action and no
  part of the script; it is modelled with the runs of the next subsection.
\<close>

record bucket_hash =
  h_tokens :: "real option"
  h_last_refill_ms :: "real option"
  h_ttl_seconds :: "real option"

type_synonym redis_store = "string \<rightharpoonup> bucket_hash"

definition HMGET :: "redis_store \<Rightarrow> string \<Rightarrow> real option \<times> real option" where
  "HMGET store key =
     (case store key of
        None \<Rightarrow> (None, None)
      | Some h \<Rightarrow> (h_tokens h, h_last_refill_ms h))"

definition HMSET :: "redis_store \<Rightarrow> string \<Rightarrow> real \<Rightarrow> real \<Rightarrow> redis_store" where
  "HMSET store key tokens last_refill =
     (case store key of
        None \<Rightarrow> store(key \<mapsto> \<lparr>h_tokens = Some tokens, h_last_refill_ms = Some last_refill,
                               h_ttl_seconds = None\<rparr>)
      | Some h \<Rightarrow> store(key \<mapsto> h\<lparr>h_tokens := Some tokens, h_last_refill_ms := Some last_refill\<rparr>))"

definition EXPIRE :: "redis_store \<Rightarrow> string \<Rightarrow> real \<Rightarrow> redis_store" where
  "EXPIRE store key ttl =
     (case store key of
        None \<Rightarrow> store
      | Some h \<Rightarrow> store(key \<mapsto> h\<lparr>h_ttl_seconds := Some ttl\<rparr>))"

text \<open>The reply table \<open>{allowed, state, current_tokens, usage_pct}\<close> of the script.\<close>

record script_reply =
  allowed :: int
  state :: int
  current_tokens :: real
  usage_pct :: real

text \<open>Lines 58-66: elapsed time and refill, on the pair \<open>(current_tokens, last_refill_ms)\<close>.\<close>

definition refill :: "real \<Rightarrow> real \<Rightarrow> real \<Rightarrow> real \<times> real \<Rightarrow> real \<times> real" where
  "refill capacity refill_rate_per_sec current_time_ms b =
     (let elapsed_seconds = (current_time_ms - snd b) / 1000
      in if elapsed_seconds > 0
         then (let tokens_to_add = elapsed_seconds * refill_rate_per_sec
               in (min capacity (fst b + tokens_to_add), current_time_ms))
         else b)"

text \<open>Lines 68-70 and 89-90: tokens consumed over capacity, in percent.\<close>

definition usage_of :: "real \<Rightarrow> real \<Rightarrow> real" where
  "usage_of capacity tokens = ((capacity - tokens) / capacity) * 100"

text \<open>Lines 72-82: the first classification, giving \<open>(state, allowed)\<close>.\<close>

definition classify :: "real \<Rightarrow> real \<Rightarrow> real \<Rightarrow> int \<times> int" where
  "classify soft_threshold_pct hard_threshold_pct usage =
     (if usage \<ge> hard_threshold_pct then (2, 0)
      else if usage \<ge> soft_threshold_pct then (1, 1)
      else (0, 1))"

text \<open>Lines 84-100: consumption with the overshoot guard that refunds the token.\<close>

definition consume :: "real \<Rightarrow> real \<Rightarrow> real \<Rightarrow> script_reply \<Rightarrow> script_reply" where
  "consume capacity soft_threshold_pct hard_threshold_pct r =
     (if allowed r = 1
      then (let tokens1 = current_tokens r - 1;
                usage1 = usage_of capacity tokens1
            in if usage1 \<ge> hard_threshold_pct
               then \<lparr>allowed = 0, state = 2, current_tokens = tokens1 + 1, usage_pct = usage1\<rparr>
               else if usage1 \<ge> soft_threshold_pct
               then \<lparr>allowed = allowed r, state = 1, current_tokens = tokens1, usage_pct = usage1\<rparr>
               else \<lparr>allowed = allowed r, state = state r, current_tokens = tokens1,
                      usage_pct = usage1\<rparr>)
      else r)"

text \<open>
  The bucket as the script sees it after loading and refilling (lines 53-66): a missing
  \<open>tokens\<close> field reads as the capacity, a missing \<open>last_refill_ms\<close> as the current time.
\<close>

definition refilled :: "redis_store \<Rightarrow> string \<Rightarrow> real \<Rightarrow> real \<Rightarrow> real \<Rightarrow> real \<times> real" where
  "refilled store key capacity refill_rate_per_sec current_time_ms =
     (let bucket_data = HMGET store key;
          current_tokens0 = (case fst bucket_data of Some t \<Rightarrow> t | None \<Rightarrow> capacity);
          last_refill_ms0 = (case snd bucket_data of Some l \<Rightarrow> l | None \<Rightarrow> current_time_ms)
      in refill capacity refill_rate_per_sec current_time_ms (current_tokens0, last_refill_ms0))"

text \<open>
  The whole script: \<open>KEYS[1]\<close>, then \<open>ARGV[1..6]\<close> (the time to live defaults to 3600),
  then the store; it returns the reply and the store it leaves.
\<close>

definition TOKEN_BUCKET_LUA_SCRIPT ::
  "string \<Rightarrow> real \<Rightarrow> real \<Rightarrow> real \<Rightarrow> real \<Rightarrow> real \<Rightarrow> real option \<Rightarrow> redis_store
     \<Rightarrow> script_reply \<times> redis_store" where
  "TOKEN_BUCKET_LUA_SCRIPT key capacity refill_rate_per_sec current_time_ms
       soft_threshold_pct hard_threshold_pct ttl_arg store =
     (let ttl_seconds = (case ttl_arg of Some t \<Rightarrow> t | None \<Rightarrow> 3600);
          b = refilled store key capacity refill_rate_per_sec current_time_ms;
          usage0 = usage_of capacity (fst b);
          c = classify soft_threshold_pct hard_threshold_pct usage0;
          r = consume capacity soft_threshold_pct hard_threshold_pct
                \<lparr>allowed = snd c, state = fst c, current_tokens = fst b, usage_pct = usage0\<rparr>
      in (r, if allowed r = 1
             then EXPIRE (HMSET store key (current_tokens r) (snd b)) key ttl_seconds
             else store))"



subsection \<open>The script over the arithmetic of Lua\<close>

text \<open>
  The operations the script applies to its numbers: \<open>+\<close>, \<open>-\<close>, \<open>*\<close>, \<open>/\<close>,
  \<open>math.min\<close>, the comparisons \<open>>\<close> and \<open>>=\<close>, and \<open>tostring\<close>, which keeps 14
  significant digits of a number; \<open>l_tostring\<close> gives the number that \<open>tonumber\<close> reads
  back from the string. A number is still written as a real, the value of the double;
  \<open>inf\<close> and \<open>nan\<close> are whatever reals an arithmetic picks for them, and its
  comparisons treat them as Lua does. The constants \<open>0\<close>, \<open>1\<close>, \<open>100\<close> and \<open>1000\<close> of
  the script are doubles.
\<close>

record lua_arith =
  l_add :: "real \<Rightarrow> real \<Rightarrow> real"
  l_sub :: "real \<Rightarrow> real \<Rightarrow> real"
  l_mul :: "real \<Rightarrow> real \<Rightarrow> real"
  l_div :: "real \<Rightarrow> real \<Rightarrow> real"
  l_min :: "real \<Rightarrow> real \<Rightarrow> real"
  l_gt :: "real \<Rightarrow> real \<Rightarrow> bool"
  l_ge :: "real \<Rightarrow> real \<Rightarrow> bool"
  l_tostring :: "real \<Rightarrow> real"

text \<open>Lines 58-66.\<close>

definition refill_in :: "lua_arith \<Rightarrow> real \<Rightarrow> real \<Rightarrow> real \<Rightarrow> real \<times> real \<Rightarrow> real \<times> real" where
  "refill_in A capacity refill_rate_per_sec current_time_ms b =
     (let elapsed_seconds = l_div A (l_sub A current_time_ms (snd b)) 1000
      in if l_gt A elapsed_seconds 0
         then (let tokens_to_add = l_mul A elapsed_seconds refill_rate_per_sec
               in (l_min A capacity (l_add A (fst b) tokens_to_add), current_time_ms))
         else b)"

text \<open>Lines 68-70 and 89-90.\<close>

definition usage_in :: "lua_arith \<Rightarrow> real \<Rightarrow> real \<Rightarrow> real" where
  "usage_in A capacity tokens = l_mul A (l_div A (l_sub A capacity tokens) capacity) 100"

text \<open>Lines 72-82.\<close>

definition classify_in :: "lua_arith \<Rightarrow> real \<Rightarrow> real \<Rightarrow> real \<Rightarrow> int \<times> int" where
  "classify_in A soft_threshold_pct hard_threshold_pct usage =
     (if l_ge A usage hard_threshold_pct then (2, 0)
      else if l_ge A usage soft_threshold_pct then (1, 1)
      else (0, 1))"

text \<open>Lines 84-100.\<close>

definition consume_in :: "lua_arith \<Rightarrow> real \<Rightarrow> real \<Rightarrow> real \<Rightarrow> script_reply \<Rightarrow> script_reply" where
  "consume_in A capacity soft_threshold_pct hard_threshold_pct r =
     (if allowed r = 1
      then (let tokens1 = l_sub A (current_tokens r) 1;
                usage1 = usage_in A capacity tokens1
            in if l_ge A usage1 hard_threshold_pct
               then \<lparr>allowed = 0, state = 2, current_tokens = l_add A tokens1 1,
                      usage_pct = usage1\<rparr>
               else if l_ge A usage1 soft_threshold_pct
               then \<lparr>allowed = allowed r, state = 1, current_tokens = tokens1, usage_pct = usage1\<rparr>
               else \<lparr>allowed = allowed r, state = state r, current_tokens = tokens1,
                      usage_pct = usage1\<rparr>)
      else r)"

text \<open>Lines 53-66.\<close>

definition refilled_in ::
  "lua_arith \<Rightarrow> redis_store \<Rightarrow> string \<Rightarrow> real \<Rightarrow> real \<Rightarrow> real \<Rightarrow> real \<times> real" where
  "refilled_in A store key capacity refill_rate_per_sec current_time_ms =
     (let bucket_data = HMGET store key;
          current_tokens0 = (case fst bucket_data of Some t \<Rightarrow> t | None \<Rightarrow> capacity);
          last_refill_ms0 = (case snd bucket_data of Some l \<Rightarrow> l | None \<Rightarrow> current_time_ms)
      in refill_in A capacity refill_rate_per_sec current_time_ms
           (current_tokens0, last_refill_ms0))"

text \<open>
  The whole script. What \<open>HMSET\<close> stores are the strings \<open>tostring\<close> makes of the two
  numbers (lines 104-107), so the fields hold what the next call will read back from them.
\<close>

definition TOKEN_BUCKET_LUA_SCRIPT_in ::
  "lua_arith \<Rightarrow> string \<Rightarrow> real \<Rightarrow> real \<Rightarrow> real \<Rightarrow> real \<Rightarrow> real \<Rightarrow> real option \<Rightarrow> redis_store
     \<Rightarrow> script_reply \<times> redis_store" where
  "TOKEN_BUCKET_LUA_SCRIPT_in A key capacity refill_rate_per_sec current_time_ms
       soft_threshold_pct hard_threshold_pct ttl_arg store =
     (let ttl_seconds = (case ttl_arg of Some t \<Rightarrow> t | None \<Rightarrow> 3600);
          b = refilled_in A store key capacity refill_rate_per_sec current_time_ms;
          usage0 = usage_in A capacity (fst b);
          c = classify_in A soft_threshold_pct hard_threshold_pct usage0;
          r = consume_in A capacity soft_threshold_pct hard_threshold_pct
                \<lparr>allowed = snd c, state = fst c, current_tokens = fst b, usage_pct = usage0\<rparr>
      in (r, if allowed r = 1
             then EXPIRE (HMSET store key (l_tostring A (current_tokens r))
                            (l_tostring A (snd b))) key ttl_seconds
             else store))"

text \<open>
  Two arithmetics for the examples. The first never rounds: with it the script is
  \<open>TOKEN_BUCKET_LUA_SCRIPT\<close>. The second differs from it in \<open>tostring\<close> alone, which
  keeps 14 significant decimal digits (the format \<open>%.14g\<close> of Lua 5.1), for numbers
  between \<open>10\<^sup>-\<^sup>4\<^sup>0\<close> and \<open>10\<^sup>4\<^sup>0\<close>.
\<close>

definition exact_arith :: lua_arith where
  "exact_arith =
     \<lparr>l_add = (\<lambda>x y. x + y), l_sub = (\<lambda>x y. x - y), l_mul = (\<lambda>x y. x * y),
      l_div = (\<lambda>x y. x / y), l_min = min, l_gt = (\<lambda>x y. x > y), l_ge = (\<lambda>x y. x \<ge> y),
      l_tostring = (\<lambda>x. x)\<rparr>"

fun digits14 :: "nat \<Rightarrow> real \<Rightarrow> real" where
  "digits14 0 x = x"
| "digits14 (Suc n) x =
     (if x = 0 then 0
      else if 1 \<le> \<bar>x\<bar> then digits14 n (x / 10) * 10
      else if \<bar>x\<bar> < 1 / 10 then digits14 n (x * 10) / 10
      else of_int \<lfloor>x * 10 ^ 14 + 1 / 2\<rfloor> / 10 ^ 14)"

definition tostring_arith :: lua_arith where
  "tostring_arith = exact_arith\<lparr>l_tostring := digits14 40\<rparr>"

subsection \<open>Runs of the script on one key\<close>

text \<open>
  The store's own part in a run: a key on which \<open>EXPIRE\<close> put a time to live of \<open>ttl\<close>
  seconds at the time \<open>written\<close> is gone at every time from \<open>written + 1000 \<sdot> ttl\<close> on.
  The clock of the store is taken to be the clock \<open>now_ms\<close> of the client.
\<close>

definition store_at :: "real \<Rightarrow> real \<Rightarrow> string \<Rightarrow> redis_store \<Rightarrow> redis_store" where
  "store_at written now key store =
     (case store key of
        None \<Rightarrow> store
      | Some h \<Rightarrow>
          (case h_ttl_seconds h of
             None \<Rightarrow> store
           | Some ttl \<Rightarrow> if now - written \<ge> ttl * 1000 then store(key := None) else store))"

text \<open>
  One invocation at the time \<open>now\<close>, on the store and the time of the last \<open>EXPIRE\<close> on
  the key: whether it was allowed, and the store and that time after it.
\<close>

definition call_at ::
  "lua_arith \<Rightarrow> string \<Rightarrow> real \<Rightarrow> real \<Rightarrow> real \<Rightarrow> real \<Rightarrow> real option \<Rightarrow> real
     \<Rightarrow> redis_store \<times> real \<Rightarrow> bool \<times> (redis_store \<times> real)" where
  "call_at A key capacity rate soft hard ttl now st =
     (let res = TOKEN_BUCKET_LUA_SCRIPT_in A key capacity rate now soft hard ttl
                  (store_at (snd st) now key (fst st))
      in (allowed (fst res) = 1, (snd res, if allowed (fst res) = 1 then now else snd st)))"

text \<open>The number of allowed invocations among those at the times of the list.\<close>

fun allowed_calls_in ::
  "lua_arith \<Rightarrow> string \<Rightarrow> real \<Rightarrow> real \<Rightarrow> real \<Rightarrow> real \<Rightarrow> real option \<Rightarrow> real list
     \<Rightarrow> redis_store \<times> real \<Rightarrow> nat" where
  "allowed_calls_in A key capacity rate soft hard ttl [] st = 0"
| "allowed_calls_in A key capacity rate soft hard ttl (now # nows) st =
     (if fst (call_at A key capacity rate soft hard ttl now st) then 1 else 0)
     + allowed_calls_in A key capacity rate soft hard ttl nows
         (snd (call_at A key capacity rate soft hard ttl now st))"

text \<open>
  The conditions of the bound on allowed calls. An invocation is free of rounding when
  the refill of lines 58-66, the decrement of line 86 and the two strings of lines
  105-106 come out as in exact arithmetic; a run is, when each of its invocations is.
\<close>

definition exact_at :: "lua_arith \<Rightarrow> string \<Rightarrow> real \<Rightarrow> real \<Rightarrow> real \<Rightarrow> redis_store \<Rightarrow> bool" where
  "exact_at A key capacity rate now store =
     (refilled_in A store key capacity rate now = refilled store key capacity rate now
      \<and> l_sub A (fst (refilled store key capacity rate now)) 1
          = fst (refilled store key capacity rate now) - 1
      \<and> l_tostring A (fst (refilled store key capacity rate now) - 1)
          = fst (refilled store key capacity rate now) - 1
      \<and> l_tostring A (snd (refilled store key capacity rate now))
          = snd (refilled store key capacity rate now))"

fun exact_run ::
  "lua_arith \<Rightarrow> string \<Rightarrow> real \<Rightarrow> real \<Rightarrow> real \<Rightarrow> real \<Rightarrow> real option \<Rightarrow> real list
     \<Rightarrow> redis_store \<times> real \<Rightarrow> bool" where
  "exact_run A key capacity rate soft hard ttl [] st = True"
| "exact_run A key capacity rate soft hard ttl (now # nows) st =
     (exact_at A key capacity rate now (store_at (snd st) now key (fst st))
      \<and> exact_run A key capacity rate soft hard ttl nows
          (snd (call_at A key capacity rate soft hard ttl now st)))"

text \<open>
  The usage of a bucket that holds no token, or less, compares as at least every
  threshold up to 100: so it is when subtraction, division, multiplication and comparison
  are monotone, as those of the doubles are.
\<close>

definition full_usage :: "lua_arith \<Rightarrow> bool" where
  "full_usage A =
     (\<forall>capacity tokens threshold.
        0 < capacity \<and> tokens \<le> 0 \<and> threshold \<le> 100
        \<longrightarrow> l_ge A (usage_in A capacity tokens) threshold)"

text \<open>The key, if the store holds it, is not gone before the time \<open>T\<close>.\<close>

definition kept_until :: "real \<Rightarrow> string \<Rightarrow> redis_store \<times> real \<Rightarrow> bool" where
  "kept_until T key st =
     (case fst st key of
        None \<Rightarrow> True
      | Some h \<Rightarrow> (case h_ttl_seconds h of None \<Rightarrow> True | Some ttl \<Rightarrow> T - snd st < ttl * 1000))"

section \<open>Policies and overrides (src/types/index.ts, src/core/override-manager.ts)\<close>

text \<open>
  JavaScript numbers are modelled as \<^typ>\<open>real\<close> and dates as milliseconds since the
  epoch (\<^typ>\<open>int\<close>). An optional field is an \<open>option\<close>; the tests \<open>if (x)\<close> and
  \<open>!x\<close> of the source are JavaScript truthiness: an absent value, the number 0 and the
  empty string are falsy.
\<close>

definition truthy_num :: "real option \<Rightarrow> bool" where
  "truthy_num x = (case x of None \<Rightarrow> False | Some v \<Rightarrow> v \<noteq> 0)"

definition truthy_str :: "string option \<Rightarrow> bool" where
  "truthy_str x = (case x of None \<Rightarrow> False | Some v \<Rightarrow> v \<noteq> [])"

record BucketPolicy =
  rpm :: real
  rps :: real
  burst_capacity :: real
  refill_rate_per_sec :: "real option"

datatype OverrideType = PenaltyMultiplier | TemporaryBan | CustomLimit

datatype OverrideSource = AutoDetector | ManualOperator

record OverrideMetadata =
  detection_window :: "string option"
  throttle_rate :: "real option"
  operator_id :: "string option"

text \<open>
  \<open>TenantOverride\<close>; the fields \<open>_id\<close>, \<open>tenant_id\<close>, \<open>user_id\<close> and \<open>endpoint\<close> carry the
  prefix \<open>o_\<close> here, the request identity below has fields of the same names.
\<close>

record TenantOverride =
  o_id :: "string option"
  o_tenant_id :: string
  o_user_id :: "string option"
  o_endpoint :: "string option"
  override_type :: OverrideType
  penalty_multiplier :: "real option"
  custom_rate :: "real option"
  custom_burst :: "real option"
  reason :: string
  source :: OverrideSource
  created_at :: "int option"
  expires_at :: int
  metadata :: "OverrideMetadata option"

subsection \<open>\<open>OverrideManager.applyOverride\<close>\<close>

record AppliedOverride =
  tenantPolicy :: BucketPolicy
  userPolicy :: "BucketPolicy option"
  banned :: bool

text \<open>
  The object literal of lines 252-259, which lines 263-270 repeat for the user policy:
  \<open>Math.floor\<close> on \<open>rpm\<close>, \<open>rps\<close> and \<open>burst_capacity\<close>, the plain product on a truthy
  \<open>refill_rate_per_sec\<close>. Here, and in \<open>applyOverride\<close> below, the product and the
  quotient are those of the reals: what the code computes where its doubles do not round.
  \<open>applyOverride_in\<close>, further down, takes the product and the quotient of JavaScript
  as parameters.
\<close>

definition penalised :: "real \<Rightarrow> BucketPolicy \<Rightarrow> BucketPolicy" where
  "penalised multiplier policy =
     \<lparr>rpm = of_int \<lfloor>rpm policy * multiplier\<rfloor>,
      rps = of_int \<lfloor>rps policy * multiplier\<rfloor>,
      burst_capacity = of_int \<lfloor>burst_capacity policy * multiplier\<rfloor>,
      refill_rate_per_sec =
        (case refill_rate_per_sec policy of
           None \<Rightarrow> None
         | Some rate \<Rightarrow> if rate \<noteq> 0 then Some (rate * multiplier) else None)\<rparr>"

definition customPolicy :: "real \<Rightarrow> real \<Rightarrow> BucketPolicy" where
  "customPolicy rate burst =
     \<lparr>rpm = rate, rps = rate / 60, burst_capacity = burst,
      refill_rate_per_sec = Some (rate / 60)\<rparr>"

definition applyOverride ::
  "TenantOverride \<Rightarrow> BucketPolicy \<Rightarrow> BucketPolicy option \<Rightarrow> AppliedOverride" where
  "applyOverride override tenant_policy user_policy =
     (if override_type override = TemporaryBan
      then \<lparr>tenantPolicy = tenant_policy, userPolicy = user_policy, banned = True\<rparr>
      else if override_type override = PenaltyMultiplier \<and> truthy_num (penalty_multiplier override)
      then (case penalty_multiplier override of
              None \<Rightarrow> \<lparr>tenantPolicy = tenant_policy, userPolicy = user_policy, banned = False\<rparr>
            | Some multiplier \<Rightarrow>
                \<lparr>tenantPolicy = penalised multiplier tenant_policy,
                 userPolicy = map_option (penalised multiplier) user_policy,
                 banned = False\<rparr>)
      else if override_type override = CustomLimit \<and> truthy_num (custom_rate override)
                \<and> truthy_num (custom_burst override)
      then (case (custom_rate override, custom_burst override) of
              (Some rate, Some burst) \<Rightarrow>
                \<lparr>tenantPolicy = customPolicy rate burst,
                 userPolicy = Some (customPolicy rate burst), banned = False\<rparr>
            | _ \<Rightarrow> \<lparr>tenantPolicy = tenant_policy, userPolicy = user_policy, banned = False\<rparr>)
      else \<lparr>tenantPolicy = tenant_policy, userPolicy = user_policy, banned = False\<rparr>)"

text \<open>
  \<open>applyOverride\<close> (lines 238-302) over the arithmetic of JavaScript: \<open>j_times\<close> is the
  product \<open>*\<close> of two doubles and \<open>j_over\<close> their quotient \<open>/\<close>, each the double the
  exact result rounds to. \<open>Math.floor\<close> does not round: the floor of a double is a double.
\<close>

record js_arith =
  j_times :: "real \<Rightarrow> real \<Rightarrow> real"
  j_over :: "real \<Rightarrow> real \<Rightarrow> real"

definition penalised_in :: "js_arith \<Rightarrow> real \<Rightarrow> BucketPolicy \<Rightarrow> BucketPolicy" where
  "penalised_in J multiplier policy =
     \<lparr>rpm = of_int \<lfloor>j_times J (rpm policy) multiplier\<rfloor>,
      rps = of_int \<lfloor>j_times J (rps policy) multiplier\<rfloor>,
      burst_capacity = of_int \<lfloor>j_times J (burst_capacity policy) multiplier\<rfloor>,
      refill_rate_per_sec =
        (case refill_rate_per_sec policy of
           None \<Rightarrow> None
         | Some rate \<Rightarrow> if rate \<noteq> 0 then Some (j_times J rate multiplier) else None)\<rparr>"

definition customPolicy_in :: "js_arith \<Rightarrow> real \<Rightarrow> real \<Rightarrow> BucketPolicy" where
  "customPolicy_in J rate burst =
     \<lparr>rpm = rate, rps = j_over J rate 60, burst_capacity = burst,
      refill_rate_per_sec = Some (j_over J rate 60)\<rparr>"

definition applyOverride_in ::
  "js_arith \<Rightarrow> TenantOverride \<Rightarrow> BucketPolicy \<Rightarrow> BucketPolicy option \<Rightarrow> AppliedOverride" where
  "applyOverride_in J override tenant_policy user_policy =
     (if override_type override = TemporaryBan
      then \<lparr>tenantPolicy = tenant_policy, userPolicy = user_policy, banned = True\<rparr>
      else if override_type override = PenaltyMultiplier \<and> truthy_num (penalty_multiplier override)
      then (case penalty_multiplier override of
              None \<Rightarrow> \<lparr>tenantPolicy = tenant_policy, userPolicy = user_policy, banned = False\<rparr>
            | Some multiplier \<Rightarrow>
                \<lparr>tenantPolicy = penalised_in J multiplier tenant_policy,
                 userPolicy = map_option (penalised_in J multiplier) user_policy,
                 banned = False\<rparr>)
      else if override_type override = CustomLimit \<and> truthy_num (custom_rate override)
                \<and> truthy_num (custom_burst override)
      then (case (custom_rate override, custom_burst override) of
              (Some rate, Some burst) \<Rightarrow>
                \<lparr>tenantPolicy = customPolicy_in J rate burst,
                 userPolicy = Some (customPolicy_in J rate burst), banned = False\<rparr>
            | _ \<Rightarrow> \<lparr>tenantPolicy = tenant_policy, userPolicy = user_policy, banned = False\<rparr>)
      else \<lparr>tenantPolicy = tenant_policy, userPolicy = user_policy, banned = False\<rparr>)"

text \<open>The arithmetic that never rounds.\<close>

definition exact_js :: js_arith where
  "exact_js = \<lparr>j_times = (\<lambda>x y. x * y), j_over = (\<lambda>x y. x / y)\<rparr>"

subsection \<open>The override collection and the lookup cache\<close>

text \<open>
  The collection \<open>rate_limit_overrides\<close> is the list of its documents; a store that
  cannot be reached makes every query throw.
\<close>

datatype store_error = StoreUnavailable

record override_store =
  documents :: "TenantOverride list"
  reachable :: bool

definition created_ms :: "TenantOverride \<Rightarrow> int" where
  "created_ms override = (case created_at override of Some t \<Rightarrow> t | None \<Rightarrow> 0)"

text \<open>
  \<open>Model.find(filter).sort({created_at: -1})\<close>: the documents that satisfy the filter,
  newest first (documents created at the same instant keep their order here).
\<close>

definition find_sorted ::
  "override_store \<Rightarrow> (TenantOverride \<Rightarrow> bool) \<Rightarrow> store_error + TenantOverride list" where
  "find_sorted db matching =
     (if reachable db
      then Inr (sort_key (\<lambda>override. - created_ms override) (filter matching (documents db)))
      else Inl StoreUnavailable)"

text \<open>
  \<open>buildOverrideQuery\<close> (lines 111-139) as the predicate its filter denotes: the base query
  and the disjunction of the \<open>$or\<close> conditions that were pushed.
\<close>

definition buildOverrideQuery ::
  "string \<Rightarrow> string option \<Rightarrow> string option \<Rightarrow> int \<Rightarrow> TenantOverride \<Rightarrow> bool" where
  "buildOverrideQuery tenant_id user_id endpoint now override =
     (o_tenant_id override = tenant_id \<and> now < expires_at override
      \<and> ((truthy_str user_id \<and> truthy_str endpoint
            \<and> o_user_id override = user_id \<and> o_endpoint override = endpoint)
         \<or> (truthy_str user_id \<and> o_user_id override = user_id \<and> o_endpoint override = None)
         \<or> (truthy_str endpoint \<and> o_endpoint override = endpoint \<and> o_user_id override = None)
         \<or> (o_user_id override = None \<and> o_endpoint override = None)))"

text \<open>\<open>getPriorityOverride\<close> (lines 80-109): the four \<open>find\<close> calls in the source's order.\<close>

definition getPriorityOverride ::
  "TenantOverride list \<Rightarrow> string option \<Rightarrow> string option \<Rightarrow> TenantOverride option" where
  "getPriorityOverride overrides user_id endpoint =
     (if length overrides > 0
      then (let override1 =
                  (if truthy_str user_id \<and> truthy_str endpoint
                   then find (\<lambda>d. o_user_id d = user_id \<and> o_endpoint d = endpoint) overrides
                   else None);
                override2 =
                  (if override1 = None \<and> truthy_str user_id
                   then find (\<lambda>d. o_user_id d = user_id \<and> \<not> truthy_str (o_endpoint d)) overrides
                   else override1);
                override3 =
                  (if override2 = None \<and> truthy_str endpoint
                   then find (\<lambda>d. o_endpoint d = endpoint \<and> \<not> truthy_str (o_user_id d)) overrides
                   else override2)
            in if override3 = None
               then find (\<lambda>d. \<not> truthy_str (o_user_id d) \<and> \<not> truthy_str (o_endpoint d)) overrides
               else override3)
      else None)"

text \<open>
  Modelled from the spec: the cache of the \<open>lru-cache\<close> package, which is not part of the
  sources. An entry is the cached answer with the time it was stored; \<open>get\<close> does not
  return an entry older than the time to live of 30 seconds. The bound of 10000
  entries is not modelled: an evicted entry is an absent one.
\<close>

type_synonym override_cache = "string \<rightharpoonup> (TenantOverride option \<times> int)"

definition CACHE_TTL_MS :: int where
  "CACHE_TTL_MS = 30000"

definition cache_get :: "override_cache \<Rightarrow> int \<Rightarrow> string \<Rightarrow> TenantOverride option option" where
  "cache_get cache now key =
     (case cache key of
        None \<Rightarrow> None
      | Some entry \<Rightarrow> if now - snd entry > CACHE_TTL_MS then None else Some (fst entry))"

definition cache_set ::
  "override_cache \<Rightarrow> int \<Rightarrow> string \<Rightarrow> TenantOverride option \<Rightarrow> override_cache" where
  "cache_set cache now key override = cache(key \<mapsto> (override, now))"

definition cache_delete :: "override_cache \<Rightarrow> string \<Rightarrow> override_cache" where
  "cache_delete cache key = cache(key := None)"

definition getCacheKey :: "string \<Rightarrow> string option \<Rightarrow> string option \<Rightarrow> string" where
  "getCacheKey tenant_id user_id endpoint =
     ''override:'' @ tenant_id @ '':''
       @ (case user_id of Some u \<Rightarrow> if u \<noteq> [] then u else ''none'' | None \<Rightarrow> ''none'') @ '':''
       @ (case endpoint of Some e \<Rightarrow> if e \<noteq> [] then e else ''none'' | None \<Rightarrow> ''none'')"

definition invalidateCache ::
  "override_cache \<Rightarrow> string \<Rightarrow> string option \<Rightarrow> string option \<Rightarrow> override_cache" where
  "invalidateCache cache tenant_id user_id endpoint =
     cache_delete
       (cache_delete
          (cache_delete
             (cache_delete cache (getCacheKey tenant_id user_id endpoint))
             (getCacheKey tenant_id user_id None))
          (getCacheKey tenant_id None endpoint))
       (getCacheKey tenant_id None None)"

text \<open>
  \<open>getActiveOverride\<close> (lines 31-78), at the time \<open>now\<close> of the call: the answer and the
  cache the call leaves. A query that throws is caught and answered with \<open>null\<close>.
\<close>

definition getActiveOverride ::
  "override_cache \<Rightarrow> override_store \<Rightarrow> int \<Rightarrow> string \<Rightarrow> string option \<Rightarrow> string option
     \<Rightarrow> TenantOverride option \<times> override_cache" where
  "getActiveOverride cache db now tenant_id user_id endpoint =
     (case cache_get cache now (getCacheKey tenant_id user_id endpoint) of
        Some cached \<Rightarrow> (cached, cache)
      | None \<Rightarrow>
          (case find_sorted db (buildOverrideQuery tenant_id user_id endpoint now) of
             Inl err \<Rightarrow> (None, cache)
           | Inr overrides \<Rightarrow>
               (getPriorityOverride overrides user_id endpoint,
                cache_set cache now (getCacheKey tenant_id user_id endpoint)
                  (getPriorityOverride overrides user_id endpoint))))"

text \<open>
  \<open>createOverride\<close> (lines 144-166): the store adds the document, giving it the
  identifier \<open>new_id\<close> and the creation time; then the four cache keys are evicted.
\<close>

definition createOverride ::
  "override_cache \<Rightarrow> override_store \<Rightarrow> int \<Rightarrow> string \<Rightarrow> TenantOverride
     \<Rightarrow> store_error + (TenantOverride \<times> override_cache \<times> override_store)" where
  "createOverride cache db now new_id override =
     (if reachable db
      then (let newOverride = override\<lparr>o_id := Some new_id, created_at := Some now\<rparr>
            in Inr (newOverride,
                    invalidateCache cache (o_tenant_id override) (o_user_id override)
                      (o_endpoint override),
                    db\<lparr>documents := documents db @ [newOverride]\<rparr>))
      else Inl StoreUnavailable)"

text \<open>\<open>hasActiveOverride\<close> (lines 219-232): a failing count is answered with \<open>false\<close>.\<close>

definition hasActiveOverride :: "override_store \<Rightarrow> int \<Rightarrow> string \<Rightarrow> bool" where
  "hasActiveOverride db now tenant_id =
     (reachable db
      \<and> length (filter (\<lambda>d. o_tenant_id d = tenant_id \<and> now < expires_at d) (documents db)) > 0)"

subsection \<open>The precedence of section 4.4 of the spec\<close>

text \<open>
  The four shapes in the spec's words, for a lookup with user \<open>u\<close> and endpoint \<open>e\<close>
  (an absent or empty argument matches nothing): user and endpoint, user only,
  endpoint only, tenant-wide.
\<close>

definition user_endpoint_match :: "string option \<Rightarrow> string option \<Rightarrow> TenantOverride \<Rightarrow> bool" where
  "user_endpoint_match u e d =
     (truthy_str u \<and> truthy_str e \<and> o_user_id d = u \<and> o_endpoint d = e)"

definition user_match :: "string option \<Rightarrow> TenantOverride \<Rightarrow> bool" where
  "user_match u d = (truthy_str u \<and> o_user_id d = u \<and> o_endpoint d = None)"

definition endpoint_match :: "string option \<Rightarrow> TenantOverride \<Rightarrow> bool" where
  "endpoint_match e d = (truthy_str e \<and> o_endpoint d = e \<and> o_user_id d = None)"

definition tenant_wide :: "TenantOverride \<Rightarrow> bool" where
  "tenant_wide d = (o_user_id d = None \<and> o_endpoint d = None)"

definition first_of :: "'a option \<Rightarrow> 'a option \<Rightarrow> 'a option" where
  "first_of a b = (case a of None \<Rightarrow> b | Some x \<Rightarrow> Some x)"

text \<open>
  A newest match of a shape among the overrides \<open>active\<close>: one of that shape which no other
  of that shape is later than, by \<open>created_at\<close>.
\<close>

definition newest_match ::
  "(TenantOverride \<Rightarrow> bool) \<Rightarrow> TenantOverride list \<Rightarrow> TenantOverride \<Rightarrow> bool" where
  "newest_match shape active d =
     (d \<in> set active \<and> shape d
      \<and> (\<forall>d' \<in> set active. shape d' \<longrightarrow> created_ms d' \<le> created_ms d))"

text \<open>On a list of query results the tests of the code are the shapes of the spec.\<close>

definition query_shaped :: "string option \<Rightarrow> string option \<Rightarrow> TenantOverride list \<Rightarrow> bool" where
  "query_shaped u e os =
     list_all (\<lambda>d. user_endpoint_match u e d \<or> user_match u d \<or> endpoint_match e d \<or> tenant_wide d) os"

text \<open>An operator's override for the tenant \<open>acme\<close>, for the examples below.\<close>

definition operator_ban ::
  "string \<Rightarrow> string option \<Rightarrow> string option \<Rightarrow> int \<Rightarrow> int \<Rightarrow> TenantOverride" where
  "operator_ban ident user ep created expires =
     \<lparr>o_id = Some ident, o_tenant_id = ''acme'', o_user_id = user, o_endpoint = ep,
      override_type = TemporaryBan, penalty_multiplier = None, custom_rate = None,
      custom_burst = None, reason = ''manual'', source = ManualOperator,
      created_at = Some created, expires_at = expires, metadata = None\<rparr>"


section \<open>The abuse detector (src/jobs/abuse-detection-job.ts)\<close>

datatype PenaltyType = Adaptive | Fixed

record AbuseDetectionConfig =
  enabled :: bool
  checkIntervalMs :: int
  throttleThreshold :: real
  detectionWindowMinutes :: int
  penaltyDurationMs :: int
  penaltyType :: PenaltyType
  penaltyMultiplier :: real

text \<open>
  The override that \<open>penalizeTenant\<close> builds (lines 166-185). How JavaScript prints a
  number is left to the two parameters \<open>toFixed1\<close> and \<open>show_int\<close>.
\<close>

definition penalty_override ::
  "AbuseDetectionConfig \<Rightarrow> (real \<Rightarrow> string) \<Rightarrow> (int \<Rightarrow> string) \<Rightarrow> int \<Rightarrow> string \<Rightarrow> real
     \<Rightarrow> TenantOverride" where
  "penalty_override config toFixed1 show_int now tenant throttle =
     \<lparr>o_id = None,
      o_tenant_id = tenant,
      o_user_id = None,
      o_endpoint = None,
      override_type = (if penaltyType config = Adaptive then PenaltyMultiplier else CustomLimit),
      penalty_multiplier =
        (if penaltyType config = Adaptive then Some (penaltyMultiplier config) else None),
      custom_rate = None,
      custom_burst = None,
      reason = ''Automatic abuse detection: '' @ toFixed1 (throttle * 100)
                 @ ''% throttle rate over '' @ show_int (detectionWindowMinutes config)
                 @ '' minutes'',
      source = AutoDetector,
      created_at = None,
      expires_at = now + penaltyDurationMs config,
      metadata = Some \<lparr>detection_window = Some (show_int (detectionWindowMinutes config) @ ''m''),
                        throttle_rate = Some throttle, operator_id = None\<rparr>\<rparr>"

text \<open>
  \<open>penalizeTenant\<close> (lines 149-204) on the override manager's cache and store: a tenant
  with an active override is skipped, an error of the store is logged and swallowed.
\<close>

definition penalizeTenant ::
  "AbuseDetectionConfig \<Rightarrow> (real \<Rightarrow> string) \<Rightarrow> (int \<Rightarrow> string) \<Rightarrow> int \<Rightarrow> string
     \<Rightarrow> override_cache \<times> override_store \<Rightarrow> string \<Rightarrow> real \<Rightarrow> override_cache \<times> override_store" where
  "penalizeTenant config toFixed1 show_int now new_id st tenant throttle =
     (if hasActiveOverride (snd st) now tenant then st
      else (case createOverride (fst st) (snd st) now new_id
                  (penalty_override config toFixed1 show_int now tenant throttle) of
              Inl err \<Rightarrow> st
            | Inr created \<Rightarrow> snd created))"

section \<open>The circuit breaker (class \<open>CircuitBreaker\<close>, in src/utils/logger.ts from line 134)\<close>

datatype CircuitBreakerState = CLOSED | OPEN | HALF_OPEN

record CircuitBreakerConfig =
  failure_threshold :: int
  timeout_ms :: int
  success_threshold :: int

record CircuitBreaker =
  cb_state :: CircuitBreakerState
  failures :: int
  successes :: int
  last_failure_time :: "int option"
  next_attempt_time :: int

text \<open>The fields as the class initialises them.\<close>

definition new_breaker :: CircuitBreaker where
  "new_breaker =
     \<lparr>cb_state = CLOSED, failures = 0, successes = 0, last_failure_time = None,
      next_attempt_time = 0\<rparr>"

text \<open>
  Every \<open>Date.now()\<close> of the source is a parameter. \<open>transitionTo\<close> reads the clock only
  when it enters \<open>OPEN\<close>, so the reading that \<open>onSuccess\<close> passes on is never looked at;
  the metrics and log lines are left out.
\<close>

definition transitionTo ::
  "CircuitBreakerConfig \<Rightarrow> int \<Rightarrow> CircuitBreakerState \<Rightarrow> CircuitBreaker \<Rightarrow> CircuitBreaker" where
  "transitionTo config now new_state cb =
     (if cb_state cb = new_state then cb
      else if new_state = OPEN
      then cb\<lparr>cb_state := new_state, next_attempt_time := now + timeout_ms config\<rparr>
      else cb\<lparr>cb_state := new_state\<rparr>)"

definition onSuccess :: "CircuitBreakerConfig \<Rightarrow> int \<Rightarrow> CircuitBreaker \<Rightarrow> CircuitBreaker" where
  "onSuccess config now cb =
     (if cb_state cb = HALF_OPEN
      then (if successes cb + 1 \<ge> success_threshold config
            then (transitionTo config now CLOSED (cb\<lparr>failures := 0, successes := successes cb + 1\<rparr>))
                   \<lparr>successes := 0\<rparr>
            else cb\<lparr>failures := 0, successes := successes cb + 1\<rparr>)
      else cb\<lparr>failures := 0\<rparr>)"

text \<open>
  \<open>onFailure\<close> reads the clock twice: \<open>now_failure\<close> for \<open>last_failure_time\<close> (line 204)
  and \<open>now_open\<close> inside \<open>transitionTo\<close> (line 231).
\<close>

definition onFailure ::
  "CircuitBreakerConfig \<Rightarrow> int \<Rightarrow> int \<Rightarrow> CircuitBreaker \<Rightarrow> CircuitBreaker" where
  "onFailure config now_failure now_open cb =
     (if cb_state cb = HALF_OPEN
      then (transitionTo config now_open OPEN
              (cb\<lparr>failures := failures cb + 1, last_failure_time := Some now_failure\<rparr>))
             \<lparr>successes := 0\<rparr>
      else if failures cb + 1 \<ge> failure_threshold config
      then transitionTo config now_open OPEN
             (cb\<lparr>failures := failures cb + 1, last_failure_time := Some now_failure\<rparr>)
      else cb\<lparr>failures := failures cb + 1, last_failure_time := Some now_failure\<rparr>)"

text \<open>
  What \<open>execute\<close> throws: its own error when the circuit is open (it carries the next
  attempt time of the message), or the error of the wrapped operation.
\<close>

datatype 'e breaker_error = CircuitOpen int | OperationFailed 'e

text \<open>
  Lines 164-172 of \<open>execute\<close>: the gate before the operation. It refuses the call, or
  lets it through in a state that has left \<open>OPEN\<close>.
\<close>

definition admit ::
  "CircuitBreakerConfig \<Rightarrow> int \<Rightarrow> CircuitBreaker \<Rightarrow> 'e breaker_error + CircuitBreaker" where
  "admit config now cb =
     (if cb_state cb = OPEN
      then (if now < next_attempt_time cb
            then Inl (CircuitOpen (next_attempt_time cb))
            else Inr (transitionTo config now HALF_OPEN cb))
      else Inr cb)"

text \<open>
  \<open>execute\<close>: the wrapped operation acts on a world \<open>'w\<close> (the store behind it) and either
  returns a value or throws. A call that is refused leaves the world as it was: the
  operation was not invoked.
\<close>

definition execute ::
  "CircuitBreakerConfig \<Rightarrow> int \<Rightarrow> int \<Rightarrow> int \<Rightarrow> ('w \<Rightarrow> ('e + 'a) \<times> 'w)
     \<Rightarrow> CircuitBreaker \<times> 'w \<Rightarrow> ('e breaker_error + 'a) \<times> (CircuitBreaker \<times> 'w)" where
  "execute config now now_failure now_open operation st =
     (case admit config now (fst st) of
        Inl refused \<Rightarrow> (Inl refused, st)
      | Inr cb \<Rightarrow>
          (case fst (operation (snd st)) of
             Inr result \<Rightarrow> (Inr result, (onSuccess config now_open cb, snd (operation (snd st))))
           | Inl error \<Rightarrow>
               (Inl (OperationFailed error),
                (onFailure config now_failure now_open cb, snd (operation (snd st))))))"

text \<open>
  A run of calls, each with its three clock readings and its operation, on the state
  the call before it left.
\<close>

fun execute_all ::
  "CircuitBreakerConfig \<Rightarrow> (int \<times> int \<times> int \<times> ('w \<Rightarrow> ('e + 'a) \<times> 'w)) list
     \<Rightarrow> CircuitBreaker \<times> 'w \<Rightarrow> CircuitBreaker \<times> 'w" where
  "execute_all config [] st = st"
| "execute_all config (call # calls) st =
     execute_all config calls
       (snd (execute config (fst call) (fst (snd call)) (fst (snd (snd call)))
               (snd (snd (snd call))) st))"

text \<open>
  What holds of a breaker however it was driven from its initial state: the count of
  successes is not negative, and it is zero outside \<open>HALF_OPEN\<close>.
\<close>

definition breaker_ok :: "CircuitBreaker \<Rightarrow> bool" where
  "breaker_ok cb = (0 \<le> successes cb \<and> (cb_state cb = HALF_OPEN \<or> successes cb = 0))"

section \<open>The bucket engine and the decision (src/core/token-bucket.ts, src/unnamed/part_013)\<close>

datatype ThrottleState = Normal | Soft | Hard

datatype RateLimitScope =
  user_global | user_endpoint | tenant_global | tenant_endpoint | global_endpoint | global_system

definition mapStateToEnum :: "int \<Rightarrow> ThrottleState" where
  "mapStateToEnum n = (if n = 0 then Normal else if n = 1 then Soft else if n = 2 then Hard else Normal)"

text \<open>
  \<open>calculateResetTime\<close> (token-bucket.ts lines 96-104); \<open>now\<close> is its \<open>Date.now()\<close>.
\<close>

definition calculateResetTime :: "real \<Rightarrow> real \<Rightarrow> real \<Rightarrow> real \<Rightarrow> real" where
  "calculateResetTime now currentTokens capacity refillRatePerSec =
     (if currentTokens \<ge> capacity then now
      else (let tokensNeeded = capacity - currentTokens;
                secondsToReset = tokensNeeded / refillRatePerSec
            in now + secondsToReset * 1000))"

definition calculateRetryAfter :: "real \<Rightarrow> real \<Rightarrow> real \<Rightarrow> real \<Rightarrow> int" where
  "calculateRetryAfter currentTokens capacity refillRatePerSec hardThresholdPct =
     (let maxAllowedTokensConsumed = (capacity * hardThresholdPct) / 100;
          currentTokensConsumed = capacity - currentTokens
      in if currentTokensConsumed \<le> maxAllowedTokensConsumed then 0
         else \<lceil>(currentTokensConsumed - maxAllowedTokensConsumed) / refillRatePerSec\<rceil>)"

text \<open>\<open>ThrottleDecisioner.calculateReset\<close>: the reset time in seconds, rounded up.\<close>

definition calculateReset :: "real \<Rightarrow> real \<Rightarrow> real \<Rightarrow> real \<Rightarrow> int" where
  "calculateReset now tokens capacity refillRatePerSec =
     \<lceil>calculateResetTime now tokens capacity refillRatePerSec / 1000\<rceil>"

text \<open>
  A check result as \<open>executeTenantBatchChecks\<close> and \<open>executeSingleCheck\<close> build it:
  \<open>CheckResult & { policy, hardPct }\<close>, where \<open>limit\<close> is \<open>policy.rpm\<close>. The fields carry the
  prefix \<open>c_\<close>, those of the decision the prefix \<open>d_\<close>.
\<close>

record CheckResult =
  c_scope :: RateLimitScope
  c_allowed :: bool
  c_state :: ThrottleState
  c_tokens :: real
  c_usage_pct :: real
  c_limit :: real
  c_policy :: BucketPolicy
  c_hardPct :: real

record RateLimitDecision =
  d_allowed :: bool
  d_state :: ThrottleState
  d_scope :: RateLimitScope
  d_limit :: real
  d_remaining :: int
  d_reset :: int
  d_retry_after :: "int option"
  d_debug :: "(RateLimitScope \<times> real \<times> real) list"

definition statePriority :: "ThrottleState \<Rightarrow> nat" where
  "statePriority s = (case s of Hard \<Rightarrow> 3 | Soft \<Rightarrow> 2 | Normal \<Rightarrow> 1)"

text \<open>
  \<open>aggregateResults\<close>: \<open>Array.prototype.reduce\<close> without an initial value, which throws a
  \<open>TypeError\<close> on the empty array.
\<close>

datatype js_error = TypeError

definition aggregateResults :: "CheckResult list \<Rightarrow> js_error + CheckResult" where
  "aggregateResults results =
     (case results of
        [] \<Rightarrow> Inl TypeError
      | first # others \<Rightarrow>
          Inr (foldl (\<lambda>worst current.
                        if statePriority (c_state current) > statePriority (c_state worst)
                        then current else worst)
                 first others))"

text \<open>\<open>policy.refill_rate_per_sec || policy.rpm / 60\<close>.\<close>

definition refillRateOf :: "BucketPolicy \<Rightarrow> real" where
  "refillRateOf policy =
     (case refill_rate_per_sec policy of
        Some rate \<Rightarrow> if rate \<noteq> 0 then rate else rpm policy / 60
      | None \<Rightarrow> rpm policy / 60)"

text \<open>
  Steps 5 to 8 of \<open>performHierarchicalCheck\<close> (part_013 lines 228-265): from the results of the
  checks to the decision. The capacity handed to \<open>calculateReset\<close> is \<open>worstResult.limit\<close>,
  the one handed to \<open>calculateRetryAfter\<close> is \<open>worstResult.policy.burst_capacity\<close>.
\<close>

definition decide :: "real \<Rightarrow> CheckResult list \<Rightarrow> js_error + RateLimitDecision" where
  "decide now results =
     (case aggregateResults results of
        Inl thrown \<Rightarrow> Inl thrown
      | Inr worstResult \<Rightarrow>
          Inr \<lparr>d_allowed = (c_state worstResult \<noteq> Hard),
               d_state = c_state worstResult,
               d_scope = c_scope worstResult,
               d_limit = c_limit worstResult,
               d_remaining = \<lfloor>c_tokens worstResult\<rfloor>,
               d_reset = calculateReset now (c_tokens worstResult) (c_limit worstResult)
                           (refillRateOf (c_policy worstResult)),
               d_retry_after =
                 (if c_state worstResult = Hard
                  then Some (calculateRetryAfter (c_tokens worstResult)
                               (burst_capacity (c_policy worstResult))
                               (refillRateOf (c_policy worstResult)) (c_hardPct worstResult))
                  else None),
               d_debug = map (\<lambda>r. (c_scope r, c_tokens r, c_usage_pct r)) results\<rparr>)"

text \<open>
  The reset epoch in the spec's words (section 4.2), from the bucket's capacity: a second,
  clearly separate definition to compare the code with.
\<close>

definition reset_epoch_spec :: "real \<Rightarrow> real \<Rightarrow> real \<Rightarrow> real \<Rightarrow> int" where
  "reset_epoch_spec now tokens capacity refill_rate =
     \<lceil>(now + ((capacity - tokens) / refill_rate) * 1000) / 1000\<rceil>"

section \<open>The store client (src/storage/redis-client.ts)\<close>

text \<open>
  The server side: the scripts it has cached (by digest), the buckets, and whether it
  can be reached. The digest that \<open>SCRIPT LOAD\<close> returns is kept symbolic. The model is
  the branch for a single connection (lines 153-170), not the cluster.
\<close>

datatype script_name = TOKEN_BUCKET | BATCH_TOKEN_BUCKET

definition digest :: "script_name \<Rightarrow> string" where
  "digest name = (case name of TOKEN_BUCKET \<Rightarrow> ''sha1:token-bucket''
                             | BATCH_TOKEN_BUCKET \<Rightarrow> ''sha1:batch-token-bucket'')"

record redis_server =
  online :: bool
  script_cache :: "string list"
  buckets :: redis_store

datatype redis_failure = NOSCRIPT | ConnectionLost

definition SCRIPT_LOAD :: "redis_server \<Rightarrow> script_name \<Rightarrow> redis_failure + (string \<times> redis_server)" where
  "SCRIPT_LOAD server name =
     (if online server
      then Inr (digest name, server\<lparr>script_cache := digest name # script_cache server\<rparr>)
      else Inl ConnectionLost)"

text \<open>
  \<open>EVALSHA\<close> of the token-bucket script with one key and the six arguments of
  \<open>checkTokenBucket\<close>; an unknown digest is the error \<open>NOSCRIPT\<close>.
\<close>

definition EVALSHA ::
  "redis_server \<Rightarrow> string \<Rightarrow> string \<Rightarrow> real \<Rightarrow> real \<Rightarrow> real \<Rightarrow> real \<Rightarrow> real \<Rightarrow> real
     \<Rightarrow> redis_failure + (script_reply \<times> redis_server)" where
  "EVALSHA server sha key capacity rate now soft hard ttl =
     (if \<not> online server then Inl ConnectionLost
      else if sha \<in> set (script_cache server) \<and> sha = digest TOKEN_BUCKET
      then Inr (fst (TOKEN_BUCKET_LUA_SCRIPT key capacity rate now soft hard (Some ttl)
                       (buckets server)),
                server\<lparr>buckets := snd (TOKEN_BUCKET_LUA_SCRIPT key capacity rate now soft hard
                                          (Some ttl) (buckets server))\<rparr>)
      else Inl NOSCRIPT)"

text \<open>
  The client side: the flag \<open>scriptsLoaded\<close> of the instance and the module's map
  \<open>scriptSHAs\<close>.
\<close>

record RedisClient =
  scriptsLoaded :: bool
  scriptSHAs :: "script_name \<rightharpoonup> string"

datatype RedisError = RedisError string

text \<open>
  \<open>loadScripts\<close> (lines 126-177): nothing is done once \<open>scriptsLoaded\<close> is set. What was
  stored before a failing load stays stored.
\<close>

definition loadScripts ::
  "RedisClient \<times> redis_server \<Rightarrow> (RedisError + unit) \<times> (RedisClient \<times> redis_server)" where
  "loadScripts st =
     (if scriptsLoaded (fst st) then (Inr (), st)
      else (case SCRIPT_LOAD (snd st) TOKEN_BUCKET of
              Inl failure \<Rightarrow> (Inl (RedisError ''Failed to load Lua scripts''), st)
            | Inr loaded1 \<Rightarrow>
                (case SCRIPT_LOAD (snd loaded1) BATCH_TOKEN_BUCKET of
                   Inl failure \<Rightarrow>
                     (Inl (RedisError ''Failed to load Lua scripts''),
                      ((fst st)\<lparr>scriptSHAs := (scriptSHAs (fst st))(TOKEN_BUCKET \<mapsto> fst loaded1)\<rparr>,
                       snd loaded1))
                 | Inr loaded2 \<Rightarrow>
                     (Inr (),
                      ((fst st)\<lparr>scriptSHAs := (scriptSHAs (fst st))
                                   (TOKEN_BUCKET \<mapsto> fst loaded1, BATCH_TOKEN_BUCKET \<mapsto> fst loaded2),
                                scriptsLoaded := True\<rparr>,
                       snd loaded2)))))"

record BucketCheck =
  bc_allowed :: bool
  bc_state :: int
  bc_tokens :: real
  bc_usagePct :: real

text \<open>
  \<open>checkTokenBucket\<close> (lines 182-241) calls itself after a reload, without a count of the
  attempts; the model gives it fuel, one unit per entry into the function, and \<open>None\<close> is
  a call that has not returned when the fuel is used up. The clock is read as \<open>now\<close> by
  every attempt; the time to live is the constant 3600 of line 204.
\<close>

fun checkTokenBucket ::
  "nat \<Rightarrow> string \<Rightarrow> real \<Rightarrow> real \<Rightarrow> real \<Rightarrow> real \<Rightarrow> real \<Rightarrow> RedisClient \<times> redis_server
     \<Rightarrow> ((RedisError + BucketCheck) \<times> (RedisClient \<times> redis_server)) option" where
  "checkTokenBucket 0 key capacity rate soft hard now st = None"
| "checkTokenBucket (Suc fuel) key capacity rate soft hard now st =
     (case scriptSHAs (fst st) TOKEN_BUCKET of
        None \<Rightarrow>
          (case fst (loadScripts st) of
             Inl thrown \<Rightarrow> Some (Inl thrown, snd (loadScripts st))
           | Inr done \<Rightarrow> checkTokenBucket fuel key capacity rate soft hard now (snd (loadScripts st)))
      | Some sha \<Rightarrow>
          (if sha = [] then
             (case fst (loadScripts st) of
                Inl thrown \<Rightarrow> Some (Inl thrown, snd (loadScripts st))
              | Inr done \<Rightarrow>
                  checkTokenBucket fuel key capacity rate soft hard now (snd (loadScripts st)))
           else
             (case EVALSHA (snd st) sha key capacity rate now soft hard 3600 of
                Inr answered \<Rightarrow>
                  Some (Inr \<lparr>bc_allowed = (allowed (fst answered) = 1),
                             bc_state = state (fst answered),
                             bc_tokens = current_tokens (fst answered),
                             bc_usagePct = usage_pct (fst answered)\<rparr>,
                        (fst st, snd answered))
              | Inl NOSCRIPT \<Rightarrow>
                  (case fst (loadScripts
                               ((fst st)\<lparr>scriptSHAs := (scriptSHAs (fst st))(TOKEN_BUCKET := None)\<rparr>,
                                snd st)) of
                     Inl thrown \<Rightarrow>
                       Some (Inl thrown,
                             snd (loadScripts
                               ((fst st)\<lparr>scriptSHAs := (scriptSHAs (fst st))(TOKEN_BUCKET := None)\<rparr>,
                                snd st)))
                   | Inr done \<Rightarrow>
                       checkTokenBucket fuel key capacity rate soft hard now
                         (snd (loadScripts
                               ((fst st)\<lparr>scriptSHAs := (scriptSHAs (fst st))(TOKEN_BUCKET := None)\<rparr>,
                                snd st))))
              | Inl ConnectionLost \<Rightarrow>
                  Some (Inl (RedisError ''Token bucket check failed''), st))))"

section \<open>Identity extraction (\<open>extractIdentity\<close>, in src/types/index.ts from line 275)\<close>

text \<open>
  The request: its path, its headers by lower-case name, and the two addresses the
  framework offers. Node hands every header but \<open>set-cookie\<close> over as one string, so
  a header is a string here and the test \<open>typeof authHeader !== 'string'\<close> of line 345
  rejects only the absent header. Strings are byte strings.
\<close>

record Request =
  path :: string
  headers :: "string \<rightharpoonup> string"
  ip :: "string option"
  remoteAddress :: "string option"

record RequestIdentity =
  tenant_id :: string
  user_id :: string
  endpoint :: string
  ip_address :: "string option"

record JwtConfig =
  headerLowerCase :: string
  hasSecret :: bool
  secret :: "string option"

text \<open>
  A claim of the payload is a string or some other JSON value; the fields of
  \<open>JWTPayload\<close> carry the prefix \<open>p_\<close>. The library \<open>jsonwebtoken\<close> is not part of the
  sources: \<open>jwt.verify\<close> and \<open>jwt.decode\<close> are parameters, with the three outcomes the
  code tells apart.
\<close>

datatype claim = StringClaim string | OtherClaim

record JWTPayload =
  p_tenant_id :: "claim option"
  p_user_id :: "claim option"
  p_tenantId :: "claim option"
  p_userId :: "claim option"
  p_sub :: "claim option"

datatype jwt_result = Throws | NoPayload | Payload JWTPayload

text \<open>\<open>typeof c === 'string' ? c : null\<close>.\<close>

definition string_claim :: "claim option \<Rightarrow> string option" where
  "string_claim c = (case c of Some (StringClaim s) \<Rightarrow> Some s | _ \<Rightarrow> None)"

text \<open>\<open>a || b || ... || fallback\<close> on strings: the first that is neither null nor empty.\<close>

fun first_truthy :: "string option list \<Rightarrow> string \<Rightarrow> string" where
  "first_truthy [] fallback = fallback"
| "first_truthy (None # rest) fallback = first_truthy rest fallback"
| "first_truthy (Some s # rest) fallback = (if s \<noteq> [] then s else first_truthy rest fallback)"

text \<open>A header that is present and not empty (\<open>if (h)\<close>).\<close>

definition header :: "Request \<Rightarrow> string \<Rightarrow> string option" where
  "header req name =
     (case headers req name of None \<Rightarrow> None | Some v \<Rightarrow> if v \<noteq> [] then Some v else None)"

text \<open>Line 350: the token of \<open>Bearer <token>\<close>, or the whole header.\<close>

definition bearer_token :: "string \<Rightarrow> string" where
  "bearer_token authHeader =
     (if take 7 authHeader = ''Bearer '' then drop 7 authHeader else authHeader)"

text \<open>Lines 356-364: verify when a secret is configured, decode otherwise.\<close>

definition jwt_payload ::
  "JwtConfig \<Rightarrow> (string \<Rightarrow> string \<Rightarrow> jwt_result) \<Rightarrow> (string \<Rightarrow> jwt_result) \<Rightarrow> string \<Rightarrow> jwt_result" where
  "jwt_payload jwtConfig jwt_verify jwt_decode token =
     (if hasSecret jwtConfig
      then (case secret jwtConfig of Some key \<Rightarrow> jwt_verify token key | None \<Rightarrow> Throws)
      else jwt_decode token)"

definition extractFromJWT ::
  "JwtConfig \<Rightarrow> (string \<Rightarrow> string \<Rightarrow> jwt_result) \<Rightarrow> (string \<Rightarrow> jwt_result) \<Rightarrow> Request
     \<Rightarrow> (string \<times> string) option" where
  "extractFromJWT jwtConfig jwt_verify jwt_decode req =
     (case header req (headerLowerCase jwtConfig) of
        None \<Rightarrow> None
      | Some authHeader \<Rightarrow>
          (if bearer_token authHeader = [] then None
           else (case jwt_payload jwtConfig jwt_verify jwt_decode (bearer_token authHeader) of
                   Throws \<Rightarrow> None
                 | NoPayload \<Rightarrow> None
                 | Payload payload \<Rightarrow>
                     Some (first_truthy [string_claim (p_tenant_id payload),
                                         string_claim (p_tenantId payload)] ''default'',
                           first_truthy [string_claim (p_user_id payload),
                                         string_claim (p_userId payload),
                                         string_claim (p_sub payload)] ''unknown''))))"

text \<open>\<open>String.prototype.split\<close> on a one-character separator.\<close>

fun split_on :: "char \<Rightarrow> string \<Rightarrow> string list" where
  "split_on sep [] = [[]]"
| "split_on sep (c # cs) =
     (if c = sep then [] # split_on sep cs
      else (case split_on sep cs of
              [] \<Rightarrow> [[c]]
            | part # parts \<Rightarrow> (c # part) # parts))"

definition extractFromAPIKey :: "Request \<Rightarrow> (string \<times> string) option" where
  "extractFromAPIKey req =
     (case header req ''x-api-key'' of
        None \<Rightarrow> None
      | Some apiKey \<Rightarrow>
          (case split_on CHR ''.'' apiKey of
             part0 # part1 # parts \<Rightarrow> Some (part0, part1)
           | _ \<Rightarrow> Some (apiKey, ''default'')))"

definition extractFromHeaders :: "Request \<Rightarrow> (string \<times> string) option" where
  "extractFromHeaders req =
     (case header req ''x-tenant-id'' of
        None \<Rightarrow> None
      | Some tenant \<Rightarrow>
          (case header req ''x-user-id'' of
             Some user \<Rightarrow> Some (tenant, user)
           | None \<Rightarrow> Some (tenant, ''default'')))"

text \<open>\<open>String.prototype.trim\<close>, for the white space of ASCII.\<close>

definition is_space :: "char \<Rightarrow> bool" where
  "is_space c = (c \<in> set [CHR '' '', CHR 0x09, CHR 0x0A, CHR 0x0B, CHR 0x0C, CHR 0x0D])"

definition trim :: "string \<Rightarrow> string" where
  "trim str = rev (dropWhile is_space (rev (dropWhile is_space str)))"

definition getClientIP :: "Request \<Rightarrow> string" where
  "getClientIP req =
     (case header req ''x-forwarded-for'' of
        Some forwarded \<Rightarrow> trim (hd (split_on CHR '','' forwarded))
      | None \<Rightarrow>
          (case header req ''x-real-ip'' of
             Some realIP \<Rightarrow> realIP
           | None \<Rightarrow> first_truthy [ip req, remoteAddress req] ''unknown''))"

text \<open>\<open>ip.replace(/[^a-zA-Z0-9]/g, '_')\<close>.\<close>

definition is_alnum :: "char \<Rightarrow> bool" where
  "is_alnum c =
     (c \<in> set ''abcdefghijklmnopqrstuvwxyzABCDEFGHIJKLMNOPQRSTUVWXYZ0123456789'')"

definition extractIdentity ::
  "JwtConfig \<Rightarrow> (string \<Rightarrow> string \<Rightarrow> jwt_result) \<Rightarrow> (string \<Rightarrow> jwt_result) \<Rightarrow> Request
     \<Rightarrow> RequestIdentity" where
  "extractIdentity jwtConfig jwt_verify jwt_decode req =
     (case extractFromJWT jwtConfig jwt_verify jwt_decode req of
        Some jwtIdentity \<Rightarrow>
          \<lparr>tenant_id = fst jwtIdentity, user_id = snd jwtIdentity, endpoint = path req,
           ip_address = Some (getClientIP req)\<rparr>
      | None \<Rightarrow>
          (case extractFromAPIKey req of
             Some apiKeyIdentity \<Rightarrow>
               \<lparr>tenant_id = fst apiKeyIdentity, user_id = snd apiKeyIdentity, endpoint = path req,
                ip_address = Some (getClientIP req)\<rparr>
           | None \<Rightarrow>
               (case extractFromHeaders req of
                  Some headerIdentity \<Rightarrow>
                    \<lparr>tenant_id = fst headerIdentity, user_id = snd headerIdentity,
                     endpoint = path req, ip_address = Some (getClientIP req)\<rparr>
                | None \<Rightarrow>
                    \<lparr>tenant_id = ''anonymous'',
                     user_id = ''ip_'' @ map (\<lambda>c. if is_alnum c then c else CHR ''_'')
                                          (getClientIP req),
                     endpoint = path req, ip_address = Some (getClientIP req)\<rparr>)))"

section \<open>Facts about the primitive\<close>

lemmas script_defs = TOKEN_BUCKET_LUA_SCRIPT_def refilled_def HMGET_def HMSET_def EXPIRE_def
  refill_def usage_of_def classify_def consume_def

lemmas script_in_defs = TOKEN_BUCKET_LUA_SCRIPT_in_def refilled_in_def HMGET_def HMSET_def
  EXPIRE_def refill_in_def usage_in_def classify_in_def consume_in_def

text \<open>With the arithmetic that never rounds, the script is the script over the reals.\<close>

lemma exact_arith_ops:
  "l_add exact_arith x y = x + y" "l_sub exact_arith x y = x - y"
  "l_mul exact_arith x y = x * y" "l_div exact_arith x y = x / y"
  "l_min exact_arith x y = min x y" "l_gt exact_arith x y = (x > y)"
  "l_ge exact_arith x y = (x \<ge> y)" "l_tostring exact_arith x = x"
  by (simp_all add: exact_arith_def)

lemma refilled_in_exact: "refilled_in exact_arith = refilled"
  by (simp add: fun_eq_iff refilled_in_def refilled_def refill_in_def refill_def exact_arith_ops
      Let_def)

lemma usage_in_exact: "usage_in exact_arith = usage_of"
  by (simp add: fun_eq_iff usage_in_def usage_of_def exact_arith_ops)

lemma TOKEN_BUCKET_LUA_SCRIPT_in_exact:
  "TOKEN_BUCKET_LUA_SCRIPT_in exact_arith = TOKEN_BUCKET_LUA_SCRIPT"
  by (simp add: fun_eq_iff TOKEN_BUCKET_LUA_SCRIPT_in_def TOKEN_BUCKET_LUA_SCRIPT_def
      refilled_in_exact usage_in_exact classify_in_def classify_def consume_in_def consume_def
      exact_arith_ops Let_def)

lemma overshoot_guard_reply:
  assumes "0 < capacity"
    and "usage_of capacity (fst (refilled store key capacity rate now)) < hard"
    and "hard \<le> usage_of capacity (fst (refilled store key capacity rate now) - 1)"
  shows "fst (TOKEN_BUCKET_LUA_SCRIPT key capacity rate now soft hard ttl store) =
           \<lparr>allowed = 0, state = 2,
            current_tokens = fst (refilled store key capacity rate now),
            usage_pct = usage_of capacity (fst (refilled store key capacity rate now) - 1)\<rparr>"
  using assms(2,3) unfolding TOKEN_BUCKET_LUA_SCRIPT_def
  by (simp add: Let_def classify_def consume_def)

text \<open>
  C1, as stated, fails. A bucket of capacity 20 under the thresholds soft 100, hard 110
  holds \<open>-1\<close> tokens after 21 consumptions: its usage is 105 percent, below the hard
  threshold, yet the call returns \<open>state = 2\<close>, because the overshoot guard of lines
  92-96 looks at the usage after the tentative decrement (110 percent).
\<close>

theorem hard_state_usage_before_counterexample:
  "state (fst (TOKEN_BUCKET_LUA_SCRIPT ''{tenant:acme}:bucket'' 20 1 0 100 110 (Some 3600)
       (Map.empty(''{tenant:acme}:bucket'' \<mapsto>
          \<lparr>h_tokens = Some (- 1), h_last_refill_ms = Some 0, h_ttl_seconds = Some 3600\<rparr>)))) = 2
   \<and> \<not> (110 \<le> usage_of 20 (fst (refilled
       (Map.empty(''{tenant:acme}:bucket'' \<mapsto>
          \<lparr>h_tokens = Some (- 1), h_last_refill_ms = Some 0, h_ttl_seconds = Some 3600\<rparr>))
       ''{tenant:acme}:bucket'' 20 1 0)))"
  by (simp add: script_defs Let_def)

text \<open>
  C1, amended: whatever the arithmetic of the script rounds to, a call that returns
  \<open>state = 2\<close> returns \<open>allowed = 0\<close> and leaves the store as it found it (no token is
  consumed), and the usage percentage the script computed compared as at least the hard
  threshold either before the decrement or after the hypothetical decrement.
\<close>

theorem hard_state_no_consumption:
  assumes "state (fst (TOKEN_BUCKET_LUA_SCRIPT_in A key capacity rate now soft hard ttl store)) = 2"
  shows "snd (TOKEN_BUCKET_LUA_SCRIPT_in A key capacity rate now soft hard ttl store) = store
       \<and> allowed (fst (TOKEN_BUCKET_LUA_SCRIPT_in A key capacity rate now soft hard ttl store)) = 0
       \<and> (l_ge A (usage_in A capacity (fst (refilled_in A store key capacity rate now))) hard
          \<or> l_ge A (usage_in A capacity
                      (l_sub A (fst (refilled_in A store key capacity rate now)) 1)) hard)"
proof -
  define b where "b = refilled_in A store key capacity rate now"
  show ?thesis
    using assms unfolding TOKEN_BUCKET_LUA_SCRIPT_in_def b_def[symmetric]
    by (auto simp: Let_def classify_in_def consume_in_def split: if_splits)
qed

text \<open>
  The theorem at a bucket of capacity 10 that holds no token, with the arithmetic whose
  \<open>tostring\<close> keeps 14 digits: the first test of the script denies the call.
\<close>

theorem hard_state_no_consumption_witness:
  "state (fst (TOKEN_BUCKET_LUA_SCRIPT_in tostring_arith ''global:bucket'' 10 2 5000 80 100 None
        (Map.empty(''global:bucket'' \<mapsto>
          \<lparr>h_tokens = Some 0, h_last_refill_ms = Some 5000, h_ttl_seconds = Some 3600\<rparr>)))) = 2
   \<and> snd (TOKEN_BUCKET_LUA_SCRIPT_in tostring_arith ''global:bucket'' 10 2 5000 80 100 None
        (Map.empty(''global:bucket'' \<mapsto>
          \<lparr>h_tokens = Some 0, h_last_refill_ms = Some 5000, h_ttl_seconds = Some 3600\<rparr>)))
       = Map.empty(''global:bucket'' \<mapsto>
          \<lparr>h_tokens = Some 0, h_last_refill_ms = Some 5000, h_ttl_seconds = Some 3600\<rparr>)
   \<and> allowed (fst (TOKEN_BUCKET_LUA_SCRIPT_in tostring_arith ''global:bucket'' 10 2 5000 80 100
        None
        (Map.empty(''global:bucket'' \<mapsto>
          \<lparr>h_tokens = Some 0, h_last_refill_ms = Some 5000, h_ttl_seconds = Some 3600\<rparr>)))) = 0
   \<and> l_ge tostring_arith (usage_in tostring_arith 10 (fst (refilled_in tostring_arith
        (Map.empty(''global:bucket'' \<mapsto>
          \<lparr>h_tokens = Some 0, h_last_refill_ms = Some 5000, h_ttl_seconds = Some 3600\<rparr>))
        ''global:bucket'' 10 2 5000))) 100"
proof -
  let ?store = "Map.empty(''global:bucket'' \<mapsto>
          \<lparr>h_tokens = Some (0::real), h_last_refill_ms = Some (5000::real),
           h_ttl_seconds = Some (3600::real)\<rparr>)"
  have hard: "state (fst (TOKEN_BUCKET_LUA_SCRIPT_in tostring_arith ''global:bucket'' 10 2 5000
      80 100 None ?store)) = 2"
    by (simp add: script_in_defs tostring_arith_def exact_arith_def Let_def)
  have usage: "l_ge tostring_arith (usage_in tostring_arith 10 (fst (refilled_in tostring_arith
      ?store ''global:bucket'' 10 2 5000))) 100"
    by (simp add: script_in_defs tostring_arith_def exact_arith_def Let_def)
  show ?thesis
    using hard usage hard_state_no_consumption [OF hard] by simp
qed

text \<open>
  C8: there is an input at which the reply is inconsistent. On a fresh bucket of
  capacity 10 with the hard threshold at 10 percent the overshoot guard fires: the
  reply carries the refunded token count 10 and the usage 10 percent computed before
  the refund, where a bucket holding 10 of 10 tokens has usage 0.
\<close>

theorem overshoot_reply_inconsistent:
  "\<exists>key capacity rate now soft hard ttl store.
     0 < capacity
     \<and> allowed (fst (TOKEN_BUCKET_LUA_SCRIPT key capacity rate now soft hard ttl store)) = 0
     \<and> state (fst (TOKEN_BUCKET_LUA_SCRIPT key capacity rate now soft hard ttl store)) = 2
     \<and> current_tokens (fst (TOKEN_BUCKET_LUA_SCRIPT key capacity rate now soft hard ttl store))
         = fst (refilled store key capacity rate now)
     \<and> usage_pct (fst (TOKEN_BUCKET_LUA_SCRIPT key capacity rate now soft hard ttl store))
         = usage_of capacity (fst (refilled store key capacity rate now) - 1)
     \<and> usage_pct (fst (TOKEN_BUCKET_LUA_SCRIPT key capacity rate now soft hard ttl store))
         \<noteq> usage_of capacity
             (current_tokens (fst (TOKEN_BUCKET_LUA_SCRIPT key capacity rate now soft hard ttl store)))"
proof -
  let ?r = "fst (TOKEN_BUCKET_LUA_SCRIPT ''global:bucket'' 10 1 0 5 10 None Map.empty)"
  have b: "fst (refilled Map.empty ''global:bucket'' 10 1 0) = 10"
    by (simp add: refilled_def HMGET_def refill_def Let_def)
  have "usage_of 10 (fst (refilled Map.empty ''global:bucket'' 10 1 0)) < 10"
    and "10 \<le> usage_of 10 (fst (refilled Map.empty ''global:bucket'' 10 1 0) - 1)"
    by (simp_all add: b usage_of_def)
  then have r: "?r = \<lparr>allowed = 0, state = 2,
        current_tokens = fst (refilled Map.empty ''global:bucket'' 10 1 0),
        usage_pct = usage_of 10 (fst (refilled Map.empty ''global:bucket'' 10 1 0) - 1)\<rparr>"
    by (intro overshoot_guard_reply) simp_all
  have "(0::real) < 10
     \<and> allowed ?r = 0 \<and> state ?r = 2
     \<and> current_tokens ?r = fst (refilled Map.empty ''global:bucket'' 10 1 0)
     \<and> usage_pct ?r = usage_of 10 (fst (refilled Map.empty ''global:bucket'' 10 1 0) - 1)
     \<and> usage_pct ?r \<noteq> usage_of 10 (current_tokens ?r)"
    unfolding r by (simp add: b usage_of_def)
  then show ?thesis by blast
qed

section \<open>The bound on allowed calls\<close>

















section \<open>Override precedence\<close>

lemma getPriorityOverride_cascade:
  "getPriorityOverride os u e =
     first_of (if truthy_str u \<and> truthy_str e
               then find (\<lambda>d. o_user_id d = u \<and> o_endpoint d = e) os else None)
    (first_of (if truthy_str u
               then find (\<lambda>d. o_user_id d = u \<and> \<not> truthy_str (o_endpoint d)) os else None)
    (first_of (if truthy_str e
               then find (\<lambda>d. o_endpoint d = e \<and> \<not> truthy_str (o_user_id d)) os else None)
       (find (\<lambda>d. \<not> truthy_str (o_user_id d) \<and> \<not> truthy_str (o_endpoint d)) os)))"
proof (cases os)
  case Nil
  then show ?thesis by (simp add: getPriorityOverride_def first_of_def)
next
  case (Cons a list)
  then have "length os > 0" by simp
  then show ?thesis
    unfolding getPriorityOverride_def Let_def first_of_def
    by (simp split: option.splits)
qed


lemma find_SomeD: "find P xs = Some x \<Longrightarrow> P x \<and> x \<in> set xs"
  by (auto simp: find_Some_iff)

lemma find_exists: "\<exists>x \<in> set xs. P x \<Longrightarrow> \<exists>x. find P xs = Some x \<and> P x \<and> x \<in> set xs"
  by (cases "find P xs") (auto simp: find_None_iff dest: find_SomeD)

lemma find_none: "\<not> (\<exists>x \<in> set xs. P x) \<Longrightarrow> find P xs = None"
  by (simp add: find_None_iff)

lemma first_of_simps [simp]: "first_of None b = b" "first_of (Some x) b = Some x"
  by (simp_all add: first_of_def)

lemma shape1:
  "(if truthy_str u \<and> truthy_str e
    then find (\<lambda>d. o_user_id d = u \<and> o_endpoint d = e) os else None)
   = find (user_endpoint_match u e) os"
proof (cases "truthy_str u \<and> truthy_str e")
  case True
  then have "(\<lambda>d. o_user_id d = u \<and> o_endpoint d = e) = user_endpoint_match u e"
    by (auto simp: user_endpoint_match_def fun_eq_iff)
  with True show ?thesis by simp
next
  case False
  then have "find (user_endpoint_match u e) os = None"
    by (intro find_none) (auto simp: user_endpoint_match_def)
  with False show ?thesis by auto
qed

lemma shape2:
  assumes "query_shaped u e os"
  shows "(if truthy_str u
          then find (\<lambda>d. o_user_id d = u \<and> \<not> truthy_str (o_endpoint d)) os else None)
         = find (user_match u) os"
proof (cases "truthy_str u")
  case True
  have "\<And>d. d \<in> set os \<Longrightarrow>
      (o_user_id d = u \<and> \<not> truthy_str (o_endpoint d)) = user_match u d"
    using assms True unfolding query_shaped_def list_all_iff
    by (auto simp: user_endpoint_match_def user_match_def endpoint_match_def tenant_wide_def
        truthy_str_def)
  then have "find (\<lambda>d. o_user_id d = u \<and> \<not> truthy_str (o_endpoint d)) os = find (user_match u) os"
    by (intro find_cong) simp_all
  with True show ?thesis by simp
next
  case False
  then have "find (user_match u) os = None"
    by (intro find_none) (auto simp: user_match_def)
  with False show ?thesis by simp
qed

lemma shape3:
  assumes "query_shaped u e os"
  shows "(if truthy_str e
          then find (\<lambda>d. o_endpoint d = e \<and> \<not> truthy_str (o_user_id d)) os else None)
         = find (endpoint_match e) os"
proof (cases "truthy_str e")
  case True
  have "\<And>d. d \<in> set os \<Longrightarrow>
      (o_endpoint d = e \<and> \<not> truthy_str (o_user_id d)) = endpoint_match e d"
    using assms True unfolding query_shaped_def list_all_iff
    by (auto simp: user_endpoint_match_def user_match_def endpoint_match_def tenant_wide_def
        truthy_str_def)
  then have "find (\<lambda>d. o_endpoint d = e \<and> \<not> truthy_str (o_user_id d)) os = find (endpoint_match e) os"
    by (intro find_cong) simp_all
  with True show ?thesis by simp
next
  case False
  then have "find (endpoint_match e) os = None"
    by (intro find_none) (auto simp: endpoint_match_def)
  with False show ?thesis by simp
qed

lemma shape4:
  assumes "query_shaped u e os"
  shows "find (\<lambda>d. \<not> truthy_str (o_user_id d) \<and> \<not> truthy_str (o_endpoint d)) os
         = find tenant_wide os"
proof -
  have "\<And>d. d \<in> set os \<Longrightarrow>
      (\<not> truthy_str (o_user_id d) \<and> \<not> truthy_str (o_endpoint d)) = tenant_wide d"
    using assms unfolding query_shaped_def list_all_iff
    by (auto simp: user_endpoint_match_def user_match_def endpoint_match_def tenant_wide_def
        truthy_str_def)
  then show ?thesis by (intro find_cong) simp_all
qed

lemma getPriorityOverride_shapes:
  assumes "query_shaped u e os"
  shows "getPriorityOverride os u e =
     first_of (find (user_endpoint_match u e) os)
    (first_of (find (user_match u) os)
    (first_of (find (endpoint_match e) os) (find tenant_wide os)))"
  unfolding getPriorityOverride_cascade shape1 shape2[OF assms] shape3[OF assms] shape4[OF assms]
  by (rule refl)


lemma query_result_shaped:
  "query_shaped u e (sort_key f (filter (buildOverrideQuery t u e now) docs))"
  unfolding query_shaped_def list_all_iff
  by (auto simp: buildOverrideQuery_def user_endpoint_match_def user_match_def
      endpoint_match_def tenant_wide_def)

lemma query_result_set:
  "set (sort_key f (filter (buildOverrideQuery t u e now) docs))
     = {d \<in> set (filter (\<lambda>d. o_tenant_id d = t \<and> now < expires_at d) docs).
          user_endpoint_match u e d \<or> user_match u d \<or> endpoint_match e d \<or> tenant_wide d}"
  by (auto simp: buildOverrideQuery_def user_endpoint_match_def user_match_def
      endpoint_match_def tenant_wide_def)


lemma cascade_first:
  assumes "\<exists>x \<in> set xs. P1 x"
  shows "\<exists>x. first_of (find P1 xs) rest = Some x \<and> find P1 xs = Some x \<and> x \<in> set xs \<and> P1 x"
proof -
  from find_exists[OF assms] obtain x where "find P1 xs = Some x" "P1 x" "x \<in> set xs" by blast
  then show ?thesis by auto
qed

text \<open>In the order of the query, the first override that passes a test is a newest one.\<close>

lemma newest_first:
  assumes f: "find P (sort_key (\<lambda>d. - created_ms d) xs) = Some x"
    and y: "y \<in> set (sort_key (\<lambda>d. - created_ms d) xs)" and p: "P y"
  shows "created_ms y \<le> created_ms x"
proof -
  let ?os = "sort_key (\<lambda>d. - created_ms d) xs"
  from f obtain i where i: "i < length ?os" "x = ?os ! i" "\<forall>j<i. \<not> P (?os ! j)"
    unfolding find_Some_iff by blast
  from y obtain k where k: "k < length ?os" "y = ?os ! k"
    unfolding in_set_conv_nth by blast
  from i(3) k(2) p have "i \<le> k" by (meson not_le)
  moreover have "sorted (map (\<lambda>d. - created_ms d) ?os)" by (rule sorted_sort_key)
  ultimately have "(map (\<lambda>d. - created_ms d) ?os) ! i \<le> (map (\<lambda>d. - created_ms d) ?os) ! k"
    using k(1) by (intro sorted_nth_mono) simp_all
  with i k \<open>i \<le> k\<close> show ?thesis by simp
qed

lemma cascade_skip:
  assumes "\<not> (\<exists>x \<in> set xs. P1 x)"
  shows "first_of (find P1 xs) rest = rest"
  using find_none[OF assms] by simp

lemmas override_defs = getActiveOverride_def cache_get_def cache_set_def getCacheKey_def
  find_sorted_def buildOverrideQuery_def getPriorityOverride_def truthy_str_def created_ms_def
  CACHE_TTL_MS_def operator_ban_def

text \<open>
  C7, as stated, fails: the lookup answers from the cache whatever the collection holds
  by now. After a lookup for \<open>(acme, alice, /api/search)\<close> that found only the tenant-wide
  override, overrides of the three other shapes are added to the collection (by another
  instance of the service, so this cache is not told); a second lookup one second later
  still returns the tenant-wide override, while an active match for user and endpoint is
  present.
\<close>

theorem getActiveOverride_stale_cache_counterexample:
  "user_endpoint_match (Some ''alice'') (Some ''/api/search'')
      (operator_ban ''o1'' (Some ''alice'') (Some ''/api/search'') 1500 600000)
   \<and> operator_ban ''o1'' (Some ''alice'') (Some ''/api/search'') 1500 600000
       \<in> set (filter (\<lambda>d. o_tenant_id d = ''acme'' \<and> 2000 < expires_at d)
           [operator_ban ''o4'' None None 0 600000,
            operator_ban ''o3'' None (Some ''/api/search'') 1500 600000,
            operator_ban ''o2'' (Some ''alice'') None 1500 600000,
            operator_ban ''o1'' (Some ''alice'') (Some ''/api/search'') 1500 600000])
   \<and> fst (getActiveOverride
        (snd (getActiveOverride Map.empty
           \<lparr>documents = [operator_ban ''o4'' None None 0 600000], reachable = True\<rparr>
           1000 ''acme'' (Some ''alice'') (Some ''/api/search'')))
        \<lparr>documents =
           [operator_ban ''o4'' None None 0 600000,
            operator_ban ''o3'' None (Some ''/api/search'') 1500 600000,
            operator_ban ''o2'' (Some ''alice'') None 1500 600000,
            operator_ban ''o1'' (Some ''alice'') (Some ''/api/search'') 1500 600000],
          reachable = True\<rparr>
        2000 ''acme'' (Some ''alice'') (Some ''/api/search''))
      = Some (operator_ban ''o4'' None None 0 600000)
   \<and> \<not> user_endpoint_match (Some ''alice'') (Some ''/api/search'')
        (operator_ban ''o4'' None None 0 600000)"
  by (simp add: override_defs user_endpoint_match_def Let_def)


text \<open>
  C7, amended: a lookup that finds no unexpired entry under its cache key and whose query
  the store answers returns a newest match (none of that shape has a later \<open>created_at\<close>)
  of the highest-priority shape present among the tenant's active overrides (user and
  endpoint, then user only, then endpoint only, then tenant-wide), and nothing if no
  shape is present. The answer is an \<open>option\<close>: at most one override.
\<close>

theorem getActiveOverride_precedence:
  fixes cache db now t u e
  defines "active \<equiv> filter (\<lambda>d. o_tenant_id d = t \<and> now < expires_at d) (documents db)"
  defines "r \<equiv> fst (getActiveOverride cache db now t u e)"
  assumes miss: "cache_get cache now (getCacheKey t u e) = None" and up: "reachable db"
  shows "((\<exists>d \<in> set active. user_endpoint_match u e d) \<longrightarrow>
            (\<exists>d. r = Some d \<and> newest_match (user_endpoint_match u e) active d))
      \<and> (\<not> (\<exists>d \<in> set active. user_endpoint_match u e d) \<and> (\<exists>d \<in> set active. user_match u d) \<longrightarrow>
            (\<exists>d. r = Some d \<and> newest_match (user_match u) active d))
      \<and> (\<not> (\<exists>d \<in> set active. user_endpoint_match u e d) \<and> \<not> (\<exists>d \<in> set active. user_match u d)
           \<and> (\<exists>d \<in> set active. endpoint_match e d) \<longrightarrow>
            (\<exists>d. r = Some d \<and> newest_match (endpoint_match e) active d))
      \<and> (\<not> (\<exists>d \<in> set active. user_endpoint_match u e d) \<and> \<not> (\<exists>d \<in> set active. user_match u d)
           \<and> \<not> (\<exists>d \<in> set active. endpoint_match e d) \<and> (\<exists>d \<in> set active. tenant_wide d) \<longrightarrow>
            (\<exists>d. r = Some d \<and> newest_match tenant_wide active d))
      \<and> (\<not> (\<exists>d \<in> set active. user_endpoint_match u e d) \<and> \<not> (\<exists>d \<in> set active. user_match u d)
           \<and> \<not> (\<exists>d \<in> set active. endpoint_match e d) \<and> \<not> (\<exists>d \<in> set active. tenant_wide d) \<longrightarrow>
            r = None)"
proof -
  define os where "os = sort_key (\<lambda>override. - created_ms override)
      (filter (buildOverrideQuery t u e now) (documents db))"
  have r: "r = getPriorityOverride os u e"
    using miss up by (simp add: r_def getActiveOverride_def find_sorted_def os_def)
  have shaped: "query_shaped u e os"
    unfolding os_def by (rule query_result_shaped)
  have os: "set os = {d \<in> set active.
      user_endpoint_match u e d \<or> user_match u d \<or> endpoint_match e d \<or> tenant_wide d}"
    unfolding os_def active_def by (rule query_result_set)
  have r': "r = first_of (find (user_endpoint_match u e) os)
    (first_of (find (user_match u) os)
    (first_of (find (endpoint_match e) os) (find tenant_wide os)))"
    unfolding r by (rule getPriorityOverride_shapes[OF shaped])
  have sub: "\<And>x. x \<in> set os \<Longrightarrow> x \<in> set active" using os by blast
  have newest: "newest_match P active d"
    if f: "find P os = Some d" and d: "d \<in> set os" "P d"
      and shape: "\<And>x. P x \<Longrightarrow>
        user_endpoint_match u e x \<or> user_match u x \<or> endpoint_match e x \<or> tenant_wide x"
    for P d
    unfolding newest_match_def
  proof (intro conjI ballI impI)
    show "d \<in> set active" using d(1) by (rule sub)
    show "P d" by (rule d(2))
    fix d' assume d': "d' \<in> set active" "P d'"
    with shape have "d' \<in> set os" using os by blast
    from f this d'(2) show "created_ms d' \<le> created_ms d"
      unfolding os_def by (rule newest_first)
  qed
  have c1: "(\<exists>d \<in> set active. user_endpoint_match u e d) \<longrightarrow>
            (\<exists>d. r = Some d \<and> newest_match (user_endpoint_match u e) active d)"
  proof
    assume "\<exists>d \<in> set active. user_endpoint_match u e d"
    then have "\<exists>d \<in> set os. user_endpoint_match u e d" using os by blast
    from cascade_first[OF this] obtain d where
      d: "r = Some d" "find (user_endpoint_match u e) os = Some d" "d \<in> set os"
         "user_endpoint_match u e d"
      unfolding r' by blast
    from newest[OF d(2,3,4)] d(1)
    show "\<exists>d. r = Some d \<and> newest_match (user_endpoint_match u e) active d" by blast
  qed
  have c2: "\<not> (\<exists>d \<in> set active. user_endpoint_match u e d) \<and> (\<exists>d \<in> set active. user_match u d) \<longrightarrow>
            (\<exists>d. r = Some d \<and> newest_match (user_match u) active d)"
  proof
    assume a: "\<not> (\<exists>d \<in> set active. user_endpoint_match u e d) \<and> (\<exists>d \<in> set active. user_match u d)"
    then have n1: "\<not> (\<exists>d \<in> set os. user_endpoint_match u e d)" using sub by blast
    from a have "\<exists>d \<in> set os. user_match u d" using os by blast
    from cascade_first[OF this] obtain d where
      d: "r = Some d" "find (user_match u) os = Some d" "d \<in> set os" "user_match u d"
      unfolding r' cascade_skip[OF n1] by blast
    from newest[OF d(2,3,4)] d(1)
    show "\<exists>d. r = Some d \<and> newest_match (user_match u) active d" by blast
  qed
  have c3: "\<not> (\<exists>d \<in> set active. user_endpoint_match u e d) \<and> \<not> (\<exists>d \<in> set active. user_match u d)
           \<and> (\<exists>d \<in> set active. endpoint_match e d) \<longrightarrow>
            (\<exists>d. r = Some d \<and> newest_match (endpoint_match e) active d)"
  proof
    assume a: "\<not> (\<exists>d \<in> set active. user_endpoint_match u e d) \<and> \<not> (\<exists>d \<in> set active. user_match u d)
           \<and> (\<exists>d \<in> set active. endpoint_match e d)"
    then have n1: "\<not> (\<exists>d \<in> set os. user_endpoint_match u e d)"
      and n2: "\<not> (\<exists>d \<in> set os. user_match u d)" using sub by blast+
    from a have "\<exists>d \<in> set os. endpoint_match e d" using os by blast
    from cascade_first[OF this] obtain d where
      d: "r = Some d" "find (endpoint_match e) os = Some d" "d \<in> set os" "endpoint_match e d"
      unfolding r' cascade_skip[OF n1] cascade_skip[OF n2] by blast
    from newest[OF d(2,3,4)] d(1)
    show "\<exists>d. r = Some d \<and> newest_match (endpoint_match e) active d" by blast
  qed
  have c4: "\<not> (\<exists>d \<in> set active. user_endpoint_match u e d) \<and> \<not> (\<exists>d \<in> set active. user_match u d)
           \<and> \<not> (\<exists>d \<in> set active. endpoint_match e d) \<and> (\<exists>d \<in> set active. tenant_wide d) \<longrightarrow>
            (\<exists>d. r = Some d \<and> newest_match tenant_wide active d)"
  proof
    assume a: "\<not> (\<exists>d \<in> set active. user_endpoint_match u e d) \<and> \<not> (\<exists>d \<in> set active. user_match u d)
           \<and> \<not> (\<exists>d \<in> set active. endpoint_match e d) \<and> (\<exists>d \<in> set active. tenant_wide d)"
    then have n1: "\<not> (\<exists>d \<in> set os. user_endpoint_match u e d)"
      and n2: "\<not> (\<exists>d \<in> set os. user_match u d)"
      and n3: "\<not> (\<exists>d \<in> set os. endpoint_match e d)" using sub by blast+
    from a have "\<exists>d \<in> set os. tenant_wide d" using os by blast
    from find_exists[OF this] obtain d where
      d: "r = Some d" "find tenant_wide os = Some d" "d \<in> set os" "tenant_wide d"
      unfolding r' cascade_skip[OF n1] cascade_skip[OF n2] cascade_skip[OF n3] by blast
    from newest[OF d(2,3,4)] d(1)
    show "\<exists>d. r = Some d \<and> newest_match tenant_wide active d" by blast
  qed
  have c5: "\<not> (\<exists>d \<in> set active. user_endpoint_match u e d) \<and> \<not> (\<exists>d \<in> set active. user_match u d)
           \<and> \<not> (\<exists>d \<in> set active. endpoint_match e d) \<and> \<not> (\<exists>d \<in> set active. tenant_wide d) \<longrightarrow>
            r = None"
  proof
    assume a: "\<not> (\<exists>d \<in> set active. user_endpoint_match u e d) \<and> \<not> (\<exists>d \<in> set active. user_match u d)
           \<and> \<not> (\<exists>d \<in> set active. endpoint_match e d) \<and> \<not> (\<exists>d \<in> set active. tenant_wide d)"
    then have n1: "\<not> (\<exists>d \<in> set os. user_endpoint_match u e d)"
      and n2: "\<not> (\<exists>d \<in> set os. user_match u d)"
      and n3: "\<not> (\<exists>d \<in> set os. endpoint_match e d)"
      and n4: "\<not> (\<exists>d \<in> set os. tenant_wide d)" using sub by blast+
    show "r = None"
      unfolding r' cascade_skip[OF n1] cascade_skip[OF n2] cascade_skip[OF n3]
      by (rule find_none[OF n4])
  qed
  from c1 c2 c3 c4 c5 show ?thesis by (intro conjI)
qed


text \<open>
  The theorem at a collection that holds two active overrides for user and endpoint, the
  older one first: the lookup returns the one created later.
\<close>

theorem getActiveOverride_precedence_witness:
  "cache_get Map.empty 2000 (getCacheKey ''acme'' (Some ''alice'') (Some ''/api/search'')) = None
   \<and> reachable \<lparr>documents =
           [operator_ban ''o4'' None None 0 600000,
            operator_ban ''o3'' None (Some ''/api/search'') 1500 600000,
            operator_ban ''o2'' (Some ''alice'') None 1500 600000,
            operator_ban ''o1'' (Some ''alice'') (Some ''/api/search'') 1500 600000,
            operator_ban ''o5'' (Some ''alice'') (Some ''/api/search'') 1800 600000],
          reachable = True\<rparr>
   \<and> (\<exists>d. fst (getActiveOverride Map.empty
          \<lparr>documents =
           [operator_ban ''o4'' None None 0 600000,
            operator_ban ''o3'' None (Some ''/api/search'') 1500 600000,
            operator_ban ''o2'' (Some ''alice'') None 1500 600000,
            operator_ban ''o1'' (Some ''alice'') (Some ''/api/search'') 1500 600000,
            operator_ban ''o5'' (Some ''alice'') (Some ''/api/search'') 1800 600000],
          reachable = True\<rparr>
          2000 ''acme'' (Some ''alice'') (Some ''/api/search'')) = Some d
        \<and> newest_match (user_endpoint_match (Some ''alice'') (Some ''/api/search''))
            (filter (\<lambda>d. o_tenant_id d = ''acme'' \<and> 2000 < expires_at d)
              [operator_ban ''o4'' None None 0 600000,
               operator_ban ''o3'' None (Some ''/api/search'') 1500 600000,
               operator_ban ''o2'' (Some ''alice'') None 1500 600000,
               operator_ban ''o1'' (Some ''alice'') (Some ''/api/search'') 1500 600000,
               operator_ban ''o5'' (Some ''alice'') (Some ''/api/search'') 1800 600000]) d
        \<and> d = operator_ban ''o5'' (Some ''alice'') (Some ''/api/search'') 1800 600000)"
proof -
  let ?docs = "[operator_ban ''o4'' None None 0 600000,
            operator_ban ''o3'' None (Some ''/api/search'') 1500 600000,
            operator_ban ''o2'' (Some ''alice'') None 1500 600000,
            operator_ban ''o1'' (Some ''alice'') (Some ''/api/search'') 1500 600000,
            operator_ban ''o5'' (Some ''alice'') (Some ''/api/search'') 1800 600000]"
  let ?db = "\<lparr>documents = ?docs, reachable = True\<rparr>"
  have miss: "cache_get Map.empty 2000
      (getCacheKey ''acme'' (Some ''alice'') (Some ''/api/search'')) = None"
    by (simp add: cache_get_def)
  have up: "reachable ?db" by simp
  have present: "\<exists>d \<in> set (filter (\<lambda>d. o_tenant_id d = ''acme'' \<and> 2000 < expires_at d)
       (documents ?db)). user_endpoint_match (Some ''alice'') (Some ''/api/search'') d"
    by (simp add: operator_ban_def user_endpoint_match_def truthy_str_def)
  from getActiveOverride_precedence [OF miss up] present
  obtain d where d: "fst (getActiveOverride Map.empty ?db 2000 ''acme'' (Some ''alice'')
           (Some ''/api/search'')) = Some d"
      "newest_match (user_endpoint_match (Some ''alice'') (Some ''/api/search''))
         (filter (\<lambda>d. o_tenant_id d = ''acme'' \<and> 2000 < expires_at d) (documents ?db)) d"
    by blast
  have "fst (getActiveOverride Map.empty ?db 2000 ''acme'' (Some ''alice'')
           (Some ''/api/search''))
        = Some (operator_ban ''o5'' (Some ''alice'') (Some ''/api/search'') 1800 600000)"
    by (simp add: override_defs Let_def)
  with d have "d = operator_ban ''o5'' (Some ''alice'') (Some ''/api/search'') 1800 600000"
    by simp
  with d miss up show ?thesis by simp
qed

section \<open>Applying overrides\<close>

text \<open>With the arithmetic that never rounds, \<open>applyOverride_in\<close> is \<open>applyOverride\<close>.\<close>

lemma applyOverride_in_exact: "applyOverride_in exact_js = applyOverride"
proof -
  have p: "penalised_in exact_js = penalised"
    by (simp add: fun_eq_iff penalised_in_def penalised_def exact_js_def split: option.splits)
  have c: "customPolicy_in exact_js = customPolicy"
    by (simp add: fun_eq_iff customPolicy_in_def customPolicy_def exact_js_def)
  show ?thesis
    unfolding fun_eq_iff applyOverride_in_def applyOverride_def p c by simp
qed

text \<open>
  C3, as stated, fails: nothing in \<open>applyOverride\<close> lifts a scaled value to 1. A tenant
  policy of 1 request per minute under the multiplier 1/2 comes out with \<open>rpm = 0\<close>
  (the product 1/2 is a double, nothing rounds).
\<close>

theorem penalty_floor_counterexample:
  "\<not> 1 \<le> rpm (tenantPolicy (applyOverride
       \<lparr>o_id = Some ''o1'', o_tenant_id = ''acme'', o_user_id = None, o_endpoint = None,
        override_type = PenaltyMultiplier, penalty_multiplier = Some (1 / 2), custom_rate = None,
        custom_burst = None, reason = ''abuse'', source = AutoDetector,
        created_at = Some 0, expires_at = 300000, metadata = None\<rparr>
       \<lparr>rpm = 1, rps = 1, burst_capacity = 1, refill_rate_per_sec = Some (1 / 60)\<rparr>
       None))"
  by (simp add: applyOverride_def truthy_num_def penalised_def)

text \<open>
  C3, amended: under a \<open>penalty_multiplier\<close> override with multiplier \<open>m\<close> in (0,1] the
  fields \<open>rpm\<close>, \<open>rps\<close> and \<open>burst_capacity\<close> of the tenant policy, and of the user policy
  when there is one, become the floor of the product \<open>original * m\<close> that JavaScript
  computes, a double, which may be 0; a \<open>refill_rate_per_sec\<close> that is set and not 0
  becomes that product itself, otherwise it is left unset.
\<close>

theorem penalty_multiplier_scaling:
  assumes "override_type override = PenaltyMultiplier"
    and "penalty_multiplier override = Some m" and "0 < m" and "m \<le> 1"
  shows "tenantPolicy (applyOverride_in J override tenant_policy user_policy) =
           \<lparr>rpm = of_int \<lfloor>j_times J (rpm tenant_policy) m\<rfloor>,
            rps = of_int \<lfloor>j_times J (rps tenant_policy) m\<rfloor>,
            burst_capacity = of_int \<lfloor>j_times J (burst_capacity tenant_policy) m\<rfloor>,
            refill_rate_per_sec =
              (case refill_rate_per_sec tenant_policy of
                 None \<Rightarrow> None
               | Some rate \<Rightarrow> if rate \<noteq> 0 then Some (j_times J rate m) else None)\<rparr>
       \<and> userPolicy (applyOverride_in J override tenant_policy user_policy) =
           (case user_policy of
              None \<Rightarrow> None
            | Some up \<Rightarrow>
                Some \<lparr>rpm = of_int \<lfloor>j_times J (rpm up) m\<rfloor>,
                      rps = of_int \<lfloor>j_times J (rps up) m\<rfloor>,
                      burst_capacity = of_int \<lfloor>j_times J (burst_capacity up) m\<rfloor>,
                      refill_rate_per_sec =
                        (case refill_rate_per_sec up of
                           None \<Rightarrow> None
                         | Some rate \<Rightarrow> if rate \<noteq> 0 then Some (j_times J rate m) else None)\<rparr>)
       \<and> \<not> banned (applyOverride_in J override tenant_policy user_policy)"
  using assms
  by (simp add: applyOverride_in_def truthy_num_def penalised_in_def split: option.splits)

text \<open>
  The theorem at the multiplier 1/4, on policies whose products with it are doubles, so
  that the exact product is the one JavaScript computes.
\<close>

theorem penalty_multiplier_scaling_witness:
  "penalty_multiplier
       \<lparr>o_id = Some ''o1'', o_tenant_id = ''acme'', o_user_id = None, o_endpoint = None,
        override_type = PenaltyMultiplier, penalty_multiplier = Some (1 / 4), custom_rate = None,
        custom_burst = None, reason = ''abuse'', source = AutoDetector,
        created_at = Some 0, expires_at = 300000, metadata = None\<rparr> = Some (1 / 4)
   \<and> (0::real) < 1 / 4 \<and> (1::real) / 4 \<le> 1
   \<and> tenantPolicy (applyOverride_in exact_js
       \<lparr>o_id = Some ''o1'', o_tenant_id = ''acme'', o_user_id = None, o_endpoint = None,
        override_type = PenaltyMultiplier, penalty_multiplier = Some (1 / 4), custom_rate = None,
        custom_burst = None, reason = ''abuse'', source = AutoDetector,
        created_at = Some 0, expires_at = 300000, metadata = None\<rparr>
       \<lparr>rpm = 10000, rps = 167, burst_capacity = 20000, refill_rate_per_sec = Some 125\<rparr>
       (Some \<lparr>rpm = 5, rps = 1, burst_capacity = 15, refill_rate_per_sec = None\<rparr>))
      = \<lparr>rpm = 2500, rps = 41, burst_capacity = 5000, refill_rate_per_sec = Some (125 / 4)\<rparr>
   \<and> userPolicy (applyOverride_in exact_js
       \<lparr>o_id = Some ''o1'', o_tenant_id = ''acme'', o_user_id = None, o_endpoint = None,
        override_type = PenaltyMultiplier, penalty_multiplier = Some (1 / 4), custom_rate = None,
        custom_burst = None, reason = ''abuse'', source = AutoDetector,
        created_at = Some 0, expires_at = 300000, metadata = None\<rparr>
       \<lparr>rpm = 10000, rps = 167, burst_capacity = 20000, refill_rate_per_sec = Some 125\<rparr>
       (Some \<lparr>rpm = 5, rps = 1, burst_capacity = 15, refill_rate_per_sec = None\<rparr>))
      = Some \<lparr>rpm = 1, rps = 0, burst_capacity = 3, refill_rate_per_sec = None\<rparr>"
proof -
  let ?ov = "\<lparr>o_id = Some ''o1'', o_tenant_id = ''acme'', o_user_id = None, o_endpoint = None,
        override_type = PenaltyMultiplier, penalty_multiplier = Some (1 / 4 :: real),
        custom_rate = None,
        custom_burst = None, reason = ''abuse'', source = AutoDetector,
        created_at = Some 0, expires_at = 300000, metadata = None\<rparr>"
  have t: "override_type ?ov = PenaltyMultiplier" by simp
  have m: "penalty_multiplier ?ov = Some (1 / 4)" by simp
  have pos: "(0::real) < 1 / 4" and le: "(1::real) / 4 \<le> 1" by simp_all
  show ?thesis
    using m pos le penalty_multiplier_scaling [OF t m pos le,
        of exact_js
           "\<lparr>rpm = 10000, rps = 167, burst_capacity = 20000, refill_rate_per_sec = Some 125\<rparr>"
           "Some \<lparr>rpm = 5, rps = 1, burst_capacity = 15, refill_rate_per_sec = None\<rparr>"]
    by (simp add: exact_js_def)
qed

lemma penalizeTenant_documents:
  "documents (snd (penalizeTenant config toFixed1 show_int now new_id st tenant throttle))
     = documents (snd st)
   \<or> documents (snd (penalizeTenant config toFixed1 show_int now new_id st tenant throttle))
     = documents (snd st)
        @ [(penalty_override config toFixed1 show_int now tenant throttle)
             \<lparr>o_id := Some new_id, created_at := Some now\<rparr>]"
  by (simp add: penalizeTenant_def createOverride_def Let_def)

text \<open>
  C10: every override that \<open>penalizeTenant\<close> adds to the collection under the penalty type
  \<open>fixed\<close> has the type \<open>custom_limit\<close> with \<open>custom_rate\<close> and \<open>custom_burst\<close> unset, and
  \<open>applyOverride\<close> returns the tenant and user policies it was given, not banned.
\<close>

theorem fixed_penalty_has_no_effect:
  assumes "penaltyType config = Fixed"
    and "d \<in> set (documents (snd (penalizeTenant config toFixed1 show_int now new_id st tenant
                  throttle)))"
    and "d \<notin> set (documents (snd st))"
  shows "override_type d = CustomLimit \<and> custom_rate d = None \<and> custom_burst d = None
       \<and> applyOverride d tenant_policy user_policy
           = \<lparr>tenantPolicy = tenant_policy, userPolicy = user_policy, banned = False\<rparr>"
proof -
  from penalizeTenant_documents[of config toFixed1 show_int now new_id st tenant throttle] assms(2,3)
  have d: "d = (penalty_override config toFixed1 show_int now tenant throttle)
             \<lparr>o_id := Some new_id, created_at := Some now\<rparr>"
    by auto
  have "override_type d = CustomLimit" "custom_rate d = None" "custom_burst d = None"
    using assms(1) by (simp_all add: d penalty_override_def)
  then show ?thesis by (simp add: applyOverride_def truthy_num_def)
qed

theorem fixed_penalty_has_no_effect_witness:
  "penaltyType \<lparr>enabled = True, checkIntervalMs = 60000, throttleThreshold = 4 / 5,
        detectionWindowMinutes = 5, penaltyDurationMs = 300000, penaltyType = Fixed,
        penaltyMultiplier = 1 / 10\<rparr> = Fixed
   \<and> documents (snd (penalizeTenant
        \<lparr>enabled = True, checkIntervalMs = 60000, throttleThreshold = 4 / 5,
          detectionWindowMinutes = 5, penaltyDurationMs = 300000, penaltyType = Fixed,
          penaltyMultiplier = 1 / 10\<rparr>
        (\<lambda>x. ''90.0'') (\<lambda>n. ''5'') 1000 ''o1''
        (Map.empty, \<lparr>documents = [], reachable = True\<rparr>) ''acme'' (9 / 10)))
     = [\<lparr>o_id = Some ''o1'', o_tenant_id = ''acme'', o_user_id = None, o_endpoint = None,
         override_type = CustomLimit, penalty_multiplier = None, custom_rate = None,
         custom_burst = None,
         reason = ''Automatic abuse detection: 90.0% throttle rate over 5 minutes'',
         source = AutoDetector, created_at = Some 1000, expires_at = 301000,
         metadata = Some \<lparr>detection_window = Some ''5m'', throttle_rate = Some (9 / 10),
                           operator_id = None\<rparr>\<rparr>]
   \<and> applyOverride
        \<lparr>o_id = Some ''o1'', o_tenant_id = ''acme'', o_user_id = None, o_endpoint = None,
         override_type = CustomLimit, penalty_multiplier = None, custom_rate = None,
         custom_burst = None,
         reason = ''Automatic abuse detection: 90.0% throttle rate over 5 minutes'',
         source = AutoDetector, created_at = Some 1000, expires_at = 301000,
         metadata = Some \<lparr>detection_window = Some ''5m'', throttle_rate = Some (9 / 10),
                           operator_id = None\<rparr>\<rparr>
        \<lparr>rpm = 10000, rps = 167, burst_capacity = 20000, refill_rate_per_sec = None\<rparr>
        (Some \<lparr>rpm = 1000, rps = 17, burst_capacity = 2000, refill_rate_per_sec = None\<rparr>)
     = \<lparr>tenantPolicy =
          \<lparr>rpm = 10000, rps = 167, burst_capacity = 20000, refill_rate_per_sec = None\<rparr>,
        userPolicy =
          Some \<lparr>rpm = 1000, rps = 17, burst_capacity = 2000, refill_rate_per_sec = None\<rparr>,
        banned = False\<rparr>"
proof -
  let ?config = "\<lparr>enabled = True, checkIntervalMs = 60000, throttleThreshold = 4 / 5,
          detectionWindowMinutes = 5, penaltyDurationMs = 300000, penaltyType = Fixed,
          penaltyMultiplier = 1 / 10\<rparr>"
  let ?d = "\<lparr>o_id = Some ''o1'', o_tenant_id = ''acme'', o_user_id = None, o_endpoint = None,
         override_type = CustomLimit, penalty_multiplier = None, custom_rate = None,
         custom_burst = None,
         reason = ''Automatic abuse detection: 90.0% throttle rate over 5 minutes'',
         source = AutoDetector, created_at = Some 1000, expires_at = 301000,
         metadata = Some \<lparr>detection_window = Some ''5m'', throttle_rate = Some (9 / 10 :: real),
                           operator_id = None\<rparr>\<rparr>"
  let ?st = "(Map.empty :: override_cache, \<lparr>documents = [], reachable = True\<rparr>)"
  have fixed: "penaltyType ?config = Fixed" by simp
  have docs: "documents (snd (penalizeTenant ?config (\<lambda>x. ''90.0'') (\<lambda>n. ''5'') 1000 ''o1''
        ?st ''acme'' (9 / 10))) = [?d]"
    by (simp add: penalizeTenant_def hasActiveOverride_def createOverride_def
        penalty_override_def Let_def)
  have mem: "?d \<in> set (documents (snd (penalizeTenant ?config (\<lambda>x. ''90.0'') (\<lambda>n. ''5'') 1000
        ''o1'' ?st ''acme'' (9 / 10))))"
    unfolding docs by simp
  have new: "?d \<notin> set (documents (snd ?st))" by simp
  from fixed_penalty_has_no_effect [OF fixed mem new] fixed docs
  show ?thesis by simp
qed

section \<open>The circuit breaker's transitions\<close>

lemma execute_refused:
  assumes "cb_state cb = OPEN" "now < next_attempt_time cb"
  shows "execute config now nf no operation (cb, w) = (Inl (CircuitOpen (next_attempt_time cb)), (cb, w))"
  using assms by (simp add: execute_def admit_def)

lemma admit_after_timeout:
  assumes "cb_state cb = OPEN" "next_attempt_time cb \<le> now"
  shows "admit config now cb = Inr (cb\<lparr>cb_state := HALF_OPEN\<rparr>)"
  using assms by (simp add: admit_def transitionTo_def)

lemma execute_after_timeout:
  assumes "cb_state cb = OPEN" "next_attempt_time cb \<le> now"
  shows "snd (snd (execute config now nf no operation (cb, w))) = snd (operation w)"
    and "execute config now nf no operation (cb, w)
          = execute config now nf no operation (cb\<lparr>cb_state := HALF_OPEN\<rparr>, w)"
  using assms by (auto simp: execute_def admit_def transitionTo_def split: sum.splits)

lemma half_open_failure:
  assumes "cb_state cb = HALF_OPEN" "fst (operation w) = Inl err"
  shows "fst (snd (execute config now nf no operation (cb, w)))
      = cb\<lparr>cb_state := OPEN, failures := failures cb + 1, successes := 0,
            last_failure_time := Some nf, next_attempt_time := no + timeout_ms config\<rparr>"
  using assms by (simp add: execute_def admit_def onFailure_def transitionTo_def)

lemma half_open_success:
  assumes "cb_state cb = HALF_OPEN" "fst (operation w) = Inr v"
  shows "fst (snd (execute config now nf no operation (cb, w)))
      = (if success_threshold config \<le> successes cb + 1
         then cb\<lparr>cb_state := CLOSED, failures := 0, successes := 0\<rparr>
         else cb\<lparr>failures := 0, successes := successes cb + 1\<rparr>)"
  using assms by (simp add: execute_def admit_def onSuccess_def transitionTo_def)

lemma closed_success:
  assumes "cb_state cb = CLOSED" "fst (operation w) = Inr v"
  shows "fst (snd (execute config now nf no operation (cb, w))) = cb\<lparr>failures := 0\<rparr>"
  using assms by (simp add: execute_def admit_def onSuccess_def transitionTo_def)


lemma execute_all_closed_successes:
  assumes "\<forall>c \<in> set calls. \<forall>w. \<exists>v. fst (snd (snd (snd c)) w) = Inr v"
    and "cb_state cb = CLOSED"
  shows "cb_state (fst (execute_all config calls (cb, w))) = CLOSED"
  using assms
proof (induction calls arbitrary: cb w)
  case Nil
  then show ?case by simp
next
  case (Cons c calls)
  have "\<forall>w. \<exists>v. fst (snd (snd (snd c)) w) = Inr v" using Cons.prems(1) by simp
  then have "\<exists>v. fst (snd (snd (snd c)) w) = Inr v" by (rule spec)
  then obtain v where v: "fst (snd (snd (snd c)) w) = Inr v" by (rule exE)
  define st where "st = snd (execute config (fst c) (fst (snd c)) (fst (snd (snd c)))
               (snd (snd (snd c))) (cb, w))"
  have "fst st = cb\<lparr>failures := 0\<rparr>"
    unfolding st_def by (rule closed_success[where operation = "snd (snd (snd c))" and w = w, OF Cons.prems(2) v])
  then have closed: "cb_state (fst st) = CLOSED" using Cons.prems(2) by simp
  have "cb_state (fst (execute_all config calls (fst st, snd st))) = CLOSED"
    using Cons.prems(1) closed by (intro Cons.IH) simp_all
  then show ?case by (simp add: st_def)
qed

lemma execute_all_half_open_successes:
  assumes "\<forall>c \<in> set calls. \<forall>w. \<exists>v. fst (snd (snd (snd c)) w) = Inr v"
    and "cb_state cb = HALF_OPEN"
  shows "(calls \<noteq> [] \<and> success_threshold config \<le> successes cb + int (length calls)
            \<longrightarrow> cb_state (fst (execute_all config calls (cb, w))) = CLOSED)
       \<and> (\<not> (calls \<noteq> [] \<and> success_threshold config \<le> successes cb + int (length calls))
            \<longrightarrow> cb_state (fst (execute_all config calls (cb, w))) = HALF_OPEN
              \<and> successes (fst (execute_all config calls (cb, w)))
                  = successes cb + int (length calls))"
  using assms
proof (induction calls arbitrary: cb w)
  case Nil
  then show ?case by simp
next
  case (Cons c calls)
  have "\<forall>w. \<exists>v. fst (snd (snd (snd c)) w) = Inr v" using Cons.prems(1) by simp
  then have "\<exists>v. fst (snd (snd (snd c)) w) = Inr v" by (rule spec)
  then obtain v where v: "fst (snd (snd (snd c)) w) = Inr v" by (rule exE)
  define st where "st = snd (execute config (fst c) (fst (snd c)) (fst (snd (snd c)))
               (snd (snd (snd c))) (cb, w))"
  have run: "execute_all config (c # calls) (cb, w) = execute_all config calls (fst st, snd st)"
    by (simp add: st_def)
  have step: "fst st = (if success_threshold config \<le> successes cb + 1
         then cb\<lparr>cb_state := CLOSED, failures := 0, successes := 0\<rparr>
         else cb\<lparr>failures := 0, successes := successes cb + 1\<rparr>)"
    unfolding st_def by (rule half_open_success[where operation = "snd (snd (snd c))" and w = w, OF Cons.prems(2) v])
  have rest: "\<forall>c \<in> set calls. \<forall>w. \<exists>v. fst (snd (snd (snd c)) w) = Inr v"
    using Cons.prems(1) by simp
  show ?case
  proof (cases "success_threshold config \<le> successes cb + 1")
    case True
    then have "cb_state (fst st) = CLOSED" using step by simp
    from execute_all_closed_successes[OF rest this]
    have "cb_state (fst (execute_all config (c # calls) (cb, w))) = CLOSED"
      unfolding run .
    moreover have "success_threshold config \<le> successes cb + int (length (c # calls))"
      using True by simp
    ultimately show ?thesis by simp
  next
    case False
    then have half: "cb_state (fst st) = HALF_OPEN" and succ: "successes (fst st) = successes cb + 1"
      using step Cons.prems(2) by simp_all
    from Cons.IH[OF rest half, of "snd st"] False
    show ?thesis unfolding run succ by (cases calls) auto
  qed
qed


text \<open>Every breaker reached from \<open>new_breaker\<close> by calls of \<open>execute\<close> is \<open>breaker_ok\<close>.\<close>

lemma breaker_ok_execute:
  assumes "breaker_ok cb"
  shows "breaker_ok (fst (snd (execute config now now_failure now_open operation (cb, w))))"
  using assms
  by (cases "cb_state cb")
     (auto simp: breaker_ok_def execute_def admit_def onSuccess_def onFailure_def transitionTo_def
       split: sum.splits)

lemma breaker_ok_execute_all:
  assumes "breaker_ok (fst st)"
  shows "breaker_ok (fst (execute_all config calls st))"
  using assms
proof (induction calls arbitrary: st)
  case Nil
  then show ?case by simp
next
  case (Cons call calls)
  have "breaker_ok (fst (snd (execute config (fst call) (fst (snd call)) (fst (snd (snd call)))
               (snd (snd (snd call))) (fst st, snd st))))"
    by (rule breaker_ok_execute[OF Cons.prems])
  then show ?case by (simp add: Cons.IH)
qed

lemma breaker_ok_reachable: "breaker_ok (fst (execute_all config calls (new_breaker, w)))"
  by (rule breaker_ok_execute_all) (simp add: breaker_ok_def new_breaker_def)

text \<open>
  C6: the steps of the breaker, calls taken one at a time.
  \<^item> In \<open>OPEN\<close> before \<open>next_attempt_time\<close>, \<open>execute\<close> throws its own error and leaves
    the breaker and the world untouched: the operation is not invoked.
  \<^item> In \<open>OPEN\<close> at or after \<open>next_attempt_time\<close>, the gate moves to \<open>HALF_OPEN\<close> and
    the operation runs: the world is the one it leaves, the outcome is its outcome.
  \<^item> In \<open>HALF_OPEN\<close> a failing operation moves the breaker to \<open>OPEN\<close> with
    \<open>next_attempt_time\<close> the clock read by the transition plus \<open>timeout_ms\<close>.
  \<^item> In \<open>HALF_OPEN\<close>, \<open>success_threshold\<close> successful calls in a row end in \<open>CLOSED\<close>;
    counted from zero successes, fewer leave the breaker in \<open>HALF_OPEN\<close>.
\<close>

theorem circuit_breaker_steps:
  fixes operation :: "'w \<Rightarrow> ('e + 'a) \<times> 'w"
    and calls :: "(int \<times> int \<times> int \<times> ('w \<Rightarrow> ('e + 'a) \<times> 'w)) list"
  shows "(cb_state cb = OPEN \<and> now < next_attempt_time cb \<longrightarrow>
            execute config now now_failure now_open operation (cb, w)
              = (Inl (CircuitOpen (next_attempt_time cb)), (cb, w)))
       \<and> (cb_state cb = OPEN \<and> next_attempt_time cb \<le> now \<longrightarrow>
            (admit config now cb :: 'e breaker_error + CircuitBreaker)
              = Inr (cb\<lparr>cb_state := HALF_OPEN\<rparr>)
            \<and> snd (snd (execute config now now_failure now_open operation (cb, w)))
                = snd (operation w)
            \<and> fst (execute config now now_failure now_open operation (cb, w))
                = (case fst (operation w) of
                     Inl err \<Rightarrow> Inl (OperationFailed err)
                   | Inr result \<Rightarrow> Inr result))
       \<and> (cb_state cb = HALF_OPEN \<and> fst (operation w) = Inl err \<longrightarrow>
            cb_state (fst (snd (execute config now now_failure now_open operation (cb, w)))) = OPEN
            \<and> next_attempt_time
                 (fst (snd (execute config now now_failure now_open operation (cb, w))))
                = now_open + timeout_ms config)
       \<and> (cb_state cb = HALF_OPEN \<and> 0 \<le> successes cb
            \<and> int (length calls) = success_threshold config \<and> calls \<noteq> []
            \<and> (\<forall>c \<in> set calls. \<forall>w. \<exists>v. fst (snd (snd (snd c)) w) = Inr v) \<longrightarrow>
            cb_state (fst (execute_all config calls (cb, w))) = CLOSED)
       \<and> (cb_state cb = HALF_OPEN \<and> successes cb = 0
            \<and> int (length calls) < success_threshold config
            \<and> (\<forall>c \<in> set calls. \<forall>w. \<exists>v. fst (snd (snd (snd c)) w) = Inr v) \<longrightarrow>
            cb_state (fst (execute_all config calls (cb, w))) = HALF_OPEN)"
proof (intro conjI impI)
  assume "cb_state cb = OPEN \<and> now < next_attempt_time cb"
  then show "execute config now now_failure now_open operation (cb, w)
              = (Inl (CircuitOpen (next_attempt_time cb)), (cb, w))"
    by (simp add: execute_refused)
next
  assume "cb_state cb = OPEN \<and> next_attempt_time cb \<le> now"
  then show "(admit config now cb :: 'e breaker_error + CircuitBreaker)
      = Inr (cb\<lparr>cb_state := HALF_OPEN\<rparr>)"
    by (simp add: admit_after_timeout)
next
  assume "cb_state cb = OPEN \<and> next_attempt_time cb \<le> now"
  then show "snd (snd (execute config now now_failure now_open operation (cb, w)))
      = snd (operation w)"
    by (simp add: execute_after_timeout(1))
next
  assume "cb_state cb = OPEN \<and> next_attempt_time cb \<le> now"
  then show "fst (execute config now now_failure now_open operation (cb, w))
                = (case fst (operation w) of
                     Inl err \<Rightarrow> Inl (OperationFailed err)
                   | Inr result \<Rightarrow> Inr result)"
    by (simp add: execute_def admit_def split: sum.splits)
next
  assume a: "cb_state cb = HALF_OPEN \<and> fst (operation w) = Inl err"
  then have h: "cb_state cb = HALF_OPEN" and f: "fst (operation w) = Inl err" by simp_all
  show "cb_state (fst (snd (execute config now now_failure now_open operation (cb, w)))) = OPEN"
    by (simp add: half_open_failure[where operation = operation and w = w, OF h f])
  show "next_attempt_time (fst (snd (execute config now now_failure now_open operation (cb, w))))
      = now_open + timeout_ms config"
    by (simp add: half_open_failure[where operation = operation and w = w, OF h f])
next
  assume a: "cb_state cb = HALF_OPEN \<and> 0 \<le> successes cb
            \<and> int (length calls) = success_threshold config \<and> calls \<noteq> []
            \<and> (\<forall>c \<in> set calls. \<forall>w. \<exists>v. fst (snd (snd (snd c)) w) = Inr v)"
  then have ok: "\<forall>c \<in> set calls. \<forall>w. \<exists>v. fst (snd (snd (snd c)) w) = Inr v"
    and h: "cb_state cb = HALF_OPEN" by simp_all
  from a have "calls \<noteq> [] \<and> success_threshold config \<le> successes cb + int (length calls)"
    by simp
  with execute_all_half_open_successes[OF ok h, of config w]
  show "cb_state (fst (execute_all config calls (cb, w))) = CLOSED" by blast
next
  assume a: "cb_state cb = HALF_OPEN \<and> successes cb = 0
            \<and> int (length calls) < success_threshold config
            \<and> (\<forall>c \<in> set calls. \<forall>w. \<exists>v. fst (snd (snd (snd c)) w) = Inr v)"
  then have ok: "\<forall>c \<in> set calls. \<forall>w. \<exists>v. fst (snd (snd (snd c)) w) = Inr v"
    and h: "cb_state cb = HALF_OPEN" by simp_all
  from a have "\<not> (calls \<noteq> [] \<and> success_threshold config \<le> successes cb + int (length calls))"
    by simp
  with execute_all_half_open_successes[OF ok h, of config w]
  show "cb_state (fst (execute_all config calls (cb, w))) = HALF_OPEN" by blast
qed

theorem circuit_breaker_steps_witness:
  "execute \<lparr>failure_threshold = 5, timeout_ms = 60000, success_threshold = 2\<rparr> 2000 2000 2000
      (\<lambda>n::nat. (Inr n :: string + nat, Suc n))
      (\<lparr>cb_state = OPEN, failures = 5, successes = 0, last_failure_time = Some 1000,
        next_attempt_time = 61000\<rparr>, 7)
    = (Inl (CircuitOpen 61000),
       (\<lparr>cb_state = OPEN, failures = 5, successes = 0, last_failure_time = Some 1000,
         next_attempt_time = 61000\<rparr>, 7))
   \<and> snd (snd (execute \<lparr>failure_threshold = 5, timeout_ms = 60000, success_threshold = 2\<rparr>
        61000 61000 61000 (\<lambda>n::nat. (Inr n :: string + nat, Suc n))
        (\<lparr>cb_state = OPEN, failures = 5, successes = 0, last_failure_time = Some 1000,
          next_attempt_time = 61000\<rparr>, 7))) = 8
   \<and> cb_state (fst (snd (execute \<lparr>failure_threshold = 5, timeout_ms = 60000, success_threshold = 2\<rparr>
        70000 70001 70002 (\<lambda>n::nat. (Inl ''ETIMEDOUT'' :: string + nat, Suc n))
        (\<lparr>cb_state = HALF_OPEN, failures = 0, successes = 1, last_failure_time = Some 1000,
          next_attempt_time = 61000\<rparr>, 7)))) = OPEN
   \<and> next_attempt_time (fst (snd (execute
        \<lparr>failure_threshold = 5, timeout_ms = 60000, success_threshold = 2\<rparr>
        70000 70001 70002 (\<lambda>n::nat. (Inl ''ETIMEDOUT'' :: string + nat, Suc n))
        (\<lparr>cb_state = HALF_OPEN, failures = 0, successes = 1, last_failure_time = Some 1000,
          next_attempt_time = 61000\<rparr>, 7)))) = 130002
   \<and> cb_state (fst (execute_all \<lparr>failure_threshold = 5, timeout_ms = 60000, success_threshold = 2\<rparr>
        [(70000, 70000, 70000, \<lambda>n::nat. (Inr n :: string + nat, Suc n)),
         (70005, 70005, 70005, \<lambda>n::nat. (Inr n :: string + nat, Suc n))]
        (\<lparr>cb_state = HALF_OPEN, failures = 0, successes = 0, last_failure_time = Some 1000,
          next_attempt_time = 61000\<rparr>, 7))) = CLOSED
   \<and> cb_state (fst (execute_all \<lparr>failure_threshold = 5, timeout_ms = 60000, success_threshold = 2\<rparr>
        [(70000, 70000, 70000, \<lambda>n::nat. (Inr n :: string + nat, Suc n))]
        (\<lparr>cb_state = HALF_OPEN, failures = 0, successes = 0, last_failure_time = Some 1000,
          next_attempt_time = 61000\<rparr>, 7))) = HALF_OPEN"
proof -
  let ?config = "\<lparr>failure_threshold = 5, timeout_ms = 60000, success_threshold = 2\<rparr>"
  let ?ok = "\<lambda>n::nat. (Inr n :: string + nat, Suc n)"
  let ?bad = "\<lambda>n::nat. (Inl ''ETIMEDOUT'' :: string + nat, Suc n)"
  let ?open = "\<lparr>cb_state = OPEN, failures = 5, successes = 0, last_failure_time = Some 1000,
        next_attempt_time = 61000\<rparr>"
  let ?half = "\<lparr>cb_state = HALF_OPEN, failures = 0, successes = 0, last_failure_time = Some 1000,
          next_attempt_time = 61000\<rparr>"
  let ?half1 = "\<lparr>cb_state = HALF_OPEN, failures = 0, successes = 1, last_failure_time = Some 1000,
          next_attempt_time = 61000\<rparr>"
  have a: "execute ?config 2000 2000 2000 ?ok (?open, 7) = (Inl (CircuitOpen 61000), (?open, 7))"
    using circuit_breaker_steps [where cb = ?open and now = 2000 and operation = ?ok
        and config = ?config and now_failure = 2000 and now_open = 2000 and w = 7
        and calls = "[]"]
    by simp
  have b: "snd (snd (execute ?config 61000 61000 61000 ?ok (?open, 7))) = 8"
    using circuit_breaker_steps [where cb = ?open and now = 61000 and operation = ?ok
        and config = ?config and now_failure = 61000 and now_open = 61000 and w = 7
        and calls = "[]"]
    by simp
  have c: "cb_state (fst (snd (execute ?config 70000 70001 70002 ?bad (?half1, 7)))) = OPEN
      \<and> next_attempt_time (fst (snd (execute ?config 70000 70001 70002 ?bad (?half1, 7)))) = 130002"
    using circuit_breaker_steps [where cb = ?half1 and now = 70000 and operation = ?bad
        and config = ?config and now_failure = 70001 and now_open = 70002 and w = 7
        and calls = "[]" and err = "''ETIMEDOUT''"]
    by simp
  have d: "cb_state (fst (execute_all ?config
        [(70000, 70000, 70000, ?ok), (70005, 70005, 70005, ?ok)] (?half, 7))) = CLOSED"
    using circuit_breaker_steps [where cb = ?half and operation = ?ok
        and config = ?config and w = 7
        and calls = "[(70000, 70000, 70000, ?ok), (70005, 70005, 70005, ?ok)]"]
    by simp
  have e: "cb_state (fst (execute_all ?config [(70000, 70000, 70000, ?ok)] (?half, 7))) = HALF_OPEN"
    using circuit_breaker_steps [where cb = ?half and operation = ?ok
        and config = ?config and w = 7
        and calls = "[(70000, 70000, 70000, ?ok)]"]
    by simp
  from a b c d e show ?thesis by (intro conjI) simp_all
qed

section \<open>The store client's retry\<close>

lemma loadScripts_loaded: "scriptsLoaded (fst st) \<Longrightarrow> loadScripts st = (Inr (), st)"
  by (simp add: loadScripts_def)

lemma checkTokenBucket_stuck:
  assumes "scriptsLoaded (fst st)" "scriptSHAs (fst st) TOKEN_BUCKET = None"
  shows "checkTokenBucket fuel key capacity rate soft hard now st = None"
  using assms
proof (induction fuel)
  case 0
  then show ?case by simp
next
  case (Suc fuel)
  then show ?case by (simp add: loadScripts_loaded)
qed

lemma checkTokenBucket_NOSCRIPT_loops:
  assumes "scriptsLoaded client" "scriptSHAs client TOKEN_BUCKET = Some sha" "sha \<noteq> []"
    and "EVALSHA server sha key capacity rate now soft hard 3600 = Inl NOSCRIPT"
  shows "checkTokenBucket fuel key capacity rate soft hard now (client, server) = None"
proof (cases fuel)
  case 0
  then show ?thesis by simp
next
  case (Suc n)
  let ?st = "(client\<lparr>scriptSHAs := (scriptSHAs client)(TOKEN_BUCKET := None)\<rparr>, server)"
  have l: "loadScripts ?st = (Inr (), ?st)"
    using assms(1) by (simp add: loadScripts_loaded)
  have "checkTokenBucket n key capacity rate soft hard now ?st = None"
    using assms(1) by (intro checkTokenBucket_stuck) simp_all
  then show ?thesis
    using assms(2,3,4) l by (simp add: Suc)
qed

lemma checkTokenBucket_other_error:
  assumes "scriptSHAs client TOKEN_BUCKET = Some sha" "sha \<noteq> []"
    and "EVALSHA server sha key capacity rate now soft hard 3600 = Inl ConnectionLost"
  shows "checkTokenBucket (Suc fuel) key capacity rate soft hard now (client, server)
           = Some (Inl (RedisError ''Token bucket check failed''), (client, server))"
  using assms by simp

text \<open>
  A client that has not loaded its scripts (its flag is still unset) does reload: after
  \<open>NOSCRIPT\<close> the second attempt is answered.
\<close>

lemma checkTokenBucket_reload_and_retry:
  assumes "\<not> scriptsLoaded client" "scriptSHAs client TOKEN_BUCKET = Some sha" "sha \<noteq> []"
    and "online server" "sha \<notin> set (script_cache server)"
  shows "\<exists>check st. checkTokenBucket (Suc (Suc fuel)) key capacity rate soft hard now (client, server)
           = Some (Inr check, st) \<and> scriptsLoaded (fst st)
             \<and> scriptSHAs (fst st) TOKEN_BUCKET = Some (digest TOKEN_BUCKET)"
  using assms
  by (simp add: EVALSHA_def loadScripts_def SCRIPT_LOAD_def digest_def)

text \<open>
  C5 at a concrete input: a client that has loaded its scripts once and holds the
  digest, against a server that is reachable but has lost its script cache. \<open>EVALSHA\<close>
  answers \<open>NOSCRIPT\<close>, the digest is deleted, \<open>loadScripts\<close> returns at once because
  \<open>scriptsLoaded\<close> is still set, and from then on every entry finds no digest and
  calls itself again: with no amount of fuel does the call return.
\<close>

theorem checkTokenBucket_noscript_never_returns:
  "\<forall>fuel. checkTokenBucket fuel ''{tenant:acme}:bucket'' 20 1 100 110 1000
      (\<lparr>scriptsLoaded = True,
        scriptSHAs = [TOKEN_BUCKET \<mapsto> digest TOKEN_BUCKET,
                      BATCH_TOKEN_BUCKET \<mapsto> digest BATCH_TOKEN_BUCKET]\<rparr>,
       \<lparr>online = True, script_cache = [], buckets = Map.empty\<rparr>) = None"
proof
  fix fuel
  show "checkTokenBucket fuel ''{tenant:acme}:bucket'' 20 1 100 110 1000
      (\<lparr>scriptsLoaded = True,
        scriptSHAs = [TOKEN_BUCKET \<mapsto> digest TOKEN_BUCKET,
                      BATCH_TOKEN_BUCKET \<mapsto> digest BATCH_TOKEN_BUCKET]\<rparr>,
       \<lparr>online = True, script_cache = [], buckets = Map.empty\<rparr>) = None"
    by (rule checkTokenBucket_NOSCRIPT_loops[where sha = "digest TOKEN_BUCKET"])
       (simp_all add: digest_def EVALSHA_def)
qed

section \<open>The decision's reset time\<close>

text \<open>
  The reset time of a decision is computed from the limit of the worst result, which is
  the \<open>rpm\<close> of its policy; \<open>calculateReset\<close> itself agrees with the spec's reset epoch
  when it is given a capacity the tokens do not exceed.
\<close>

lemma decide_reset:
  assumes "aggregateResults results = Inr worst"
  shows "map_sum id d_reset (decide now results)
           = Inr (calculateReset now (c_tokens worst) (c_limit worst)
                    (refillRateOf (c_policy worst)))"
  using assms by (simp add: decide_def)

lemma calculateReset_spec:
  assumes "tokens \<le> capacity"
  shows "calculateReset now tokens capacity rate = reset_epoch_spec now tokens capacity rate"
  using assms
  by (auto simp: calculateReset_def calculateResetTime_def reset_epoch_spec_def Let_def)

text \<open>
  C4 at a concrete input: the results of a first request of the tenant of the spec's
  scenario 1 (user 1000 rpm with burst 2000, 1999 tokens left) at the time
  1700000000000 ms. The decision's \<open>reset\<close> is 1700000000: \<open>calculateReset\<close> was handed
  the limit 1000 as capacity, the bucket looks full to it and it returns the current
  time. The reset epoch from the burst capacity 2000 is 60 ms later and rounds up to
  1700000001.
\<close>

theorem decide_reset_uses_rpm:
  "map_sum id d_reset (decide 1700000000000
      [\<lparr>c_scope = user_global, c_allowed = True, c_state = Normal, c_tokens = 1999,
        c_usage_pct = 0, c_limit = 1000,
        c_policy = \<lparr>rpm = 1000, rps = 17, burst_capacity = 2000,
                    refill_rate_per_sec = Some (50 / 3)\<rparr>,
        c_hardPct = 110\<rparr>,
       \<lparr>c_scope = tenant_global, c_allowed = True, c_state = Normal, c_tokens = 19999,
        c_usage_pct = 0, c_limit = 10000,
        c_policy = \<lparr>rpm = 10000, rps = 167, burst_capacity = 20000,
                    refill_rate_per_sec = Some (500 / 3)\<rparr>,
        c_hardPct = 110\<rparr>,
       \<lparr>c_scope = global_system, c_allowed = True, c_state = Normal, c_tokens = 199999,
        c_usage_pct = 0, c_limit = 100000,
        c_policy = \<lparr>rpm = 100000, rps = 1667, burst_capacity = 200000,
                    refill_rate_per_sec = Some (5000 / 3)\<rparr>,
        c_hardPct = 110\<rparr>]) = Inr 1700000000
   \<and> reset_epoch_spec 1700000000000 1999 2000 (50 / 3) = 1700000001"
  by (simp add: decide_def aggregateResults_def statePriority_def calculateReset_def
      calculateResetTime_def refillRateOf_def reset_epoch_spec_def Let_def)

section \<open>Identity from a token without tenant claims\<close>

text \<open>
  C9: a request whose token header is present, carries a non-empty token and yields a
  payload (verified when a secret is configured, decoded otherwise) without the claims
  \<open>tenant_id\<close> and \<open>tenantId\<close> gets its identity from the token: the tenant is
  \<open>default\<close>, the user the first non-empty string among \<open>user_id\<close>, \<open>userId\<close> and \<open>sub\<close>
  and \<open>unknown\<close> when these are absent too. Neither the API key nor the identity
  headers nor the address-derived anonymous identity are consulted.
\<close>

theorem jwt_without_tenant_claims:
  assumes "headers req (headerLowerCase jwtConfig) = Some authHeader"
    and "authHeader \<noteq> []" and "bearer_token authHeader \<noteq> []"
    and "jwt_payload jwtConfig jwt_verify jwt_decode (bearer_token authHeader) = Payload payload"
    and "p_tenant_id payload = None" and "p_tenantId payload = None"
  shows "extractIdentity jwtConfig jwt_verify jwt_decode req =
           \<lparr>tenant_id = ''default'',
            user_id = first_truthy [string_claim (p_user_id payload),
                                    string_claim (p_userId payload),
                                    string_claim (p_sub payload)] ''unknown'',
            endpoint = path req, ip_address = Some (getClientIP req)\<rparr>
       \<and> (p_user_id payload = None \<and> p_userId payload = None \<and> p_sub payload = None \<longrightarrow>
            user_id (extractIdentity jwtConfig jwt_verify jwt_decode req) = ''unknown'')"
  using assms
  by (simp add: extractIdentity_def extractFromJWT_def header_def string_claim_def)

theorem jwt_without_tenant_claims_witness:
  "headers \<lparr>path = ''/api/search'',
        headers = [''authorization'' \<mapsto> ''Bearer e30.e30.'',
                   ''x-api-key'' \<mapsto> ''acme.alice.s3cret'',
                   ''x-tenant-id'' \<mapsto> ''acme'',
                   ''x-forwarded-for'' \<mapsto> ''10.0.0.7, 10.0.0.1''],
        ip = Some ''127.0.0.1'', remoteAddress = None\<rparr>
      (headerLowerCase \<lparr>headerLowerCase = ''authorization'', hasSecret = False, secret = None\<rparr>)
     = Some ''Bearer e30.e30.''
   \<and> bearer_token ''Bearer e30.e30.'' = ''e30.e30.''
   \<and> extractIdentity \<lparr>headerLowerCase = ''authorization'', hasSecret = False, secret = None\<rparr>
       (\<lambda>token key. Throws)
       (\<lambda>token. if token = ''e30.e30.''
                 then Payload \<lparr>p_tenant_id = None, p_user_id = None, p_tenantId = None,
                                p_userId = None, p_sub = None\<rparr>
                 else NoPayload)
       \<lparr>path = ''/api/search'',
        headers = [''authorization'' \<mapsto> ''Bearer e30.e30.'',
                   ''x-api-key'' \<mapsto> ''acme.alice.s3cret'',
                   ''x-tenant-id'' \<mapsto> ''acme'',
                   ''x-forwarded-for'' \<mapsto> ''10.0.0.7, 10.0.0.1''],
        ip = Some ''127.0.0.1'', remoteAddress = None\<rparr>
     = \<lparr>tenant_id = ''default'', user_id = ''unknown'', endpoint = ''/api/search'',
        ip_address = Some ''10.0.0.7''\<rparr>"
proof -
  let ?config = "\<lparr>headerLowerCase = ''authorization'', hasSecret = False, secret = None\<rparr>"
  let ?payload = "\<lparr>p_tenant_id = None, p_user_id = None, p_tenantId = None,
                                p_userId = None, p_sub = None\<rparr>"
  let ?decode = "\<lambda>token. if token = ''e30.e30.'' then Payload ?payload else NoPayload"
  let ?verify = "\<lambda>(token::string) (key::string). Throws"
  let ?req = "\<lparr>path = ''/api/search'',
        headers = [''authorization'' \<mapsto> ''Bearer e30.e30.'',
                   ''x-api-key'' \<mapsto> ''acme.alice.s3cret'',
                   ''x-tenant-id'' \<mapsto> ''acme'',
                   ''x-forwarded-for'' \<mapsto> ''10.0.0.7, 10.0.0.1''],
        ip = Some ''127.0.0.1'', remoteAddress = None\<rparr>"
  have h: "headers ?req (headerLowerCase ?config) = Some ''Bearer e30.e30.''" by simp
  have ne: "''Bearer e30.e30.'' \<noteq> []" by simp
  have tok: "bearer_token ''Bearer e30.e30.'' = ''e30.e30.''" by (simp add: bearer_token_def)
  then have tok_ne: "bearer_token ''Bearer e30.e30.'' \<noteq> []" by simp
  have dec: "jwt_payload ?config ?verify ?decode (bearer_token ''Bearer e30.e30.'') = Payload ?payload"
    by (simp add: jwt_payload_def tok)
  have t1: "p_tenant_id ?payload = None" and t2: "p_tenantId ?payload = None" by simp_all
  have ip: "getClientIP ?req = ''10.0.0.7''"
    by (simp add: getClientIP_def header_def trim_def is_space_def)
  from jwt_without_tenant_claims [OF h ne tok_ne dec t1 t2] h tok ip
  show ?thesis by (simp add: string_claim_def)
qed

end
